theory Spec2Isabelle
  imports Complex_Main "HOL-Library.Sublist" "HOL-Library.Word"
begin

section \<open>Tables\<close>

text \<open>
  The script \<^verbatim>\<open>fuel_trims.py\<close> reads two CSV files into pandas tables, \<^verbatim>\<open>df_log\<close> and
  \<^verbatim>\<open>df_map\<close>, and computes heat-map grids from them. A table is modelled as the list of its
  labelled columns, in header order; labels may repeat (after a rename they can).

  A cell of the log is empty (\<open>NaN\<close>), a number, or text, and it has the type of its
  column, as \<^verbatim>\<open>read_csv\<close> makes it: a cell of an integer column is a 64-bit integer
  (\<open>I64\<close>), a number of any other column is a float (\<open>Num\<close>), and a column that holds a
  text holds nothing but texts and empty cells. Integers wrap around at 64 bits, as those
  of the script do. Floats are exact reals: the rounding of 64-bit floats and the IEEE
  special values are outside the model. The cells of the mapping file are labels,
  modelled as strings.
\<close>

datatype cell = NaN | Num real | I64 "64 word" | Str string

text \<open>The value of a number cell.\<close>

fun number :: "cell \<Rightarrow> real option" where
  "number (Num x) = Some x"
| "number (I64 i) = Some (of_int (sint i))"
| "number NaN = None"
| "number (Str s) = None"

definition is_Str :: "cell \<Rightarrow> bool" where
  "is_Str v = (case v of Str s \<Rightarrow> True | _ \<Rightarrow> False)"

type_synonym 'c dataframe = "(string \<times> 'c list) list"

definition df_columns :: "'c dataframe \<Rightarrow> string list" where
  "df_columns df = map fst df"

text \<open>
  The script shows an error in three places: the two checks of the mapping file, each
  followed by \<^verbatim>\<open>st.stop()\<close>, and the handler \<^verbatim>\<open>except Exception\<close> around the whole
  computation, which reports whatever pandas raised. They are the three errors of the model.
\<close>

datatype error =
    MissingMappingColumnsError
  | MissingRequiredFieldError "string list"
  | OtherError

definition REQUIRED_COLUMNS :: "string list" where
  "REQUIRED_COLUMNS = [''MAP_mbar'', ''RPM'', ''STFT'', ''LTFT'']"

section \<open>Schema resolver\<close>

text \<open>
  A Python dictionary as an association list in insertion order: storing under a key that
  is present replaces its value in place, a new key goes to the end.
\<close>

fun dict_set :: "('k \<times> 'v) list \<Rightarrow> 'k \<Rightarrow> 'v \<Rightarrow> ('k \<times> 'v) list" where
  "dict_set [] k v = [(k, v)]"
| "dict_set ((k', v') # d) k v =
     (if k' = k then (k', v) # d else (k', v') # dict_set d k v)"

text \<open>\<^verbatim>\<open>dict(zip(keys, vals))\<close>: the pairs are stored one after the other.\<close>

definition dict_zip :: "'k list \<Rightarrow> 'v list \<Rightarrow> ('k \<times> 'v) list" where
  "dict_zip ks vs = foldl (\<lambda>d (k, v). dict_set d k v) [] (zip ks vs)"

definition dict_values :: "('k \<times> 'v) list \<Rightarrow> 'v list" where
  "dict_values d = map snd d"

definition dict_get :: "('k \<times> 'v) list \<Rightarrow> 'k \<Rightarrow> 'v option" where
  "dict_get d k = map_of d k"

text \<open>
  \<^verbatim>\<open>df_map['original']\<close>: the cells of a column of the mapping file. \<^verbatim>\<open>read_csv\<close> makes the
  labels of a file distinct, and the script reads the two columns only after it has found
  their labels.
\<close>

definition map_column :: "string dataframe \<Rightarrow> string \<Rightarrow> string list" where
  "map_column df_map c = (case map_of df_map c of Some xs \<Rightarrow> xs | None \<Rightarrow> [])"

text \<open>Lines 46 to 54: the two checks of the mapping file, and the dictionary.\<close>

definition column_mapping_of :: "string dataframe \<Rightarrow> (string \<times> string) list" where
  "column_mapping_of df_map = dict_zip (map_column df_map ''original'') (map_column df_map ''new'')"

definition missing_of :: "(string \<times> string) list \<Rightarrow> string list" where
  "missing_of column_mapping =
     filter (\<lambda>col. col \<notin> set (dict_values column_mapping)) REQUIRED_COLUMNS"

definition resolve :: "string dataframe \<Rightarrow> error + (string \<times> string) list" where
  "resolve df_map =
     (if ''original'' \<notin> set (df_columns df_map) \<or> ''new'' \<notin> set (df_columns df_map)
      then Inl MissingMappingColumnsError
      else let column_mapping = column_mapping_of df_map;
               missing = missing_of column_mapping
           in if missing \<noteq> [] then Inl (MissingRequiredFieldError missing)
              else Inr column_mapping)"

text \<open>
  Line 56, \<^verbatim>\<open>df_log.rename(columns=column_mapping)\<close>: every label that is a key of the
  dictionary is replaced by its value, the others stay; the cells are untouched.
\<close>

definition rename :: "(string \<times> string) list \<Rightarrow> 'c dataframe \<Rightarrow> 'c dataframe" where
  "rename column_mapping df =
     map (\<lambda>(c, xs). (case dict_get column_mapping c of Some n \<Rightarrow> n | None \<Rightarrow> c, xs)) df"

section \<open>Record filter\<close>

text \<open>
  After the rename the script touches the four required columns and the three it derives
  from them, so a row is carried as the record of these. Selecting a label that no column
  has raises \<^verbatim>\<open>KeyError\<close> (in \<^verbatim>\<open>dropna\<close>, line 57); a label that several columns have
  selects a table instead of a column, which the assignments of lines 60 to 62 reject.
  Both end in the handler of line 167.
\<close>

definition getitem :: "'c dataframe \<Rightarrow> string \<Rightarrow> error + 'c list" where
  "getitem df c =
     (case filter (\<lambda>p. fst p = c) df of
        [p] \<Rightarrow> Inr (snd p)
      | _ \<Rightarrow> Inl OtherError)"

record log_row =
  MAP_mbar :: cell
  RPM :: cell
  STFT :: cell
  LTFT :: cell

definition make_rows :: "cell list \<Rightarrow> cell list \<Rightarrow> cell list \<Rightarrow> cell list \<Rightarrow> log_row list" where
  "make_rows ms rs ss ls =
     map (\<lambda>(m, r, s, l). \<lparr>MAP_mbar = m, RPM = r, STFT = s, LTFT = l\<rparr>)
       (zip ms (zip rs (zip ss ls)))"

definition required_rows :: "cell dataframe \<Rightarrow> error + log_row list" where
  "required_rows df =
     (case getitem df ''MAP_mbar'' of Inl e \<Rightarrow> Inl e | Inr ms \<Rightarrow>
     (case getitem df ''RPM'' of Inl e \<Rightarrow> Inl e | Inr rs \<Rightarrow>
     (case getitem df ''STFT'' of Inl e \<Rightarrow> Inl e | Inr ss \<Rightarrow>
     (case getitem df ''LTFT'' of Inl e \<Rightarrow> Inl e | Inr ls \<Rightarrow>
        Inr (make_rows ms rs ss ls)))))"

text \<open>Line 57, \<^verbatim>\<open>dropna(subset=REQUIRED_COLUMNS)\<close>: rows with an empty required cell go.\<close>

definition dropna :: "log_row list \<Rightarrow> log_row list" where
  "dropna df =
     filter (\<lambda>r. MAP_mbar r \<noteq> NaN \<and> RPM r \<noteq> NaN \<and> STFT r \<noteq> NaN \<and> LTFT r \<noteq> NaN) df"

text \<open>
  Line 58, \<^verbatim>\<open>df[(df['MAP_mbar'] > 0) & (df['RPM'] > 0)]\<close>. Comparing a number is the
  comparison, comparing an empty cell is false, and comparing text with a number raises
  \<^verbatim>\<open>TypeError\<close>. Both comparisons run over every row before any row is selected.
\<close>

fun cell_gt :: "cell \<Rightarrow> real \<Rightarrow> error + bool" where
  "cell_gt NaN c = Inr False"
| "cell_gt (Num x) c = Inr (c < x)"
| "cell_gt (I64 i) c = Inr (c < of_int (sint i))"
| "cell_gt (Str s) c = Inl OtherError"

fun traverse :: "('a \<Rightarrow> error + 'b) \<Rightarrow> 'a list \<Rightarrow> error + 'b list" where
  "traverse f [] = Inr []"
| "traverse f (x # xs) =
     (case f x of Inl e \<Rightarrow> Inl e | Inr y \<Rightarrow>
     (case traverse f xs of Inl e \<Rightarrow> Inl e | Inr ys \<Rightarrow> Inr (y # ys)))"

definition boolean_index :: "'a list \<Rightarrow> bool list \<Rightarrow> 'a list" where
  "boolean_index df keep = map fst (filter snd (zip df keep))"

definition record_filter :: "log_row list \<Rightarrow> error + log_row list" where
  "record_filter df_log =
     (let df = dropna df_log in
      (case traverse (\<lambda>r. cell_gt (MAP_mbar r) 0) df of Inl e \<Rightarrow> Inl e | Inr map_pos \<Rightarrow>
      (case traverse (\<lambda>r. cell_gt (RPM r) 0) df of Inl e \<Rightarrow> Inl e | Inr rpm_pos \<Rightarrow>
         Inr (boolean_index df (map2 (\<lambda>a b. a \<and> b) map_pos rpm_pos)))))"

section \<open>Binning and aggregation\<close>

text \<open>
  Lines 60 to 62 add three columns. \<^verbatim>\<open>//\<close> is floor division and \<^verbatim>\<open>*\<close> the product, in
  64-bit integers on an integer cell and in floats on a float; both give an empty cell on
  an empty cell. \<^verbatim>\<open>+\<close> adds two integers in 64 bits, wrapping around, adds two numbers
  in floats when one of them is a float, joins two texts, and gives an empty cell when
  either side is empty. Text does not divide, and does not add to a number.
  The bin sizes are the integers of the two select boxes (250, 500 or 1000 for RPM and
  25, 50 or 100 for MAP), so a bin size is never 0; what \<^verbatim>\<open>//\<close> does at 0 is not modelled.
\<close>

definition floordiv :: "real \<Rightarrow> real \<Rightarrow> real" where
  "floordiv x y = of_int \<lfloor>x / y\<rfloor>"

definition floordiv64 :: "64 word \<Rightarrow> int \<Rightarrow> 64 word" where
  "floordiv64 i n = word_of_int (sint i div n)"

fun bin_cell :: "cell \<Rightarrow> int \<Rightarrow> error + real option" where
  "bin_cell NaN bin_size = Inr None"
| "bin_cell (Num x) bin_size = Inr (Some (floordiv x (of_int bin_size) * of_int bin_size))"
| "bin_cell (I64 i) bin_size =
     Inr (Some (of_int (sint (floordiv64 i bin_size * word_of_int bin_size))))"
| "bin_cell (Str s) bin_size = Inl OtherError"

fun add_cell :: "cell \<Rightarrow> cell \<Rightarrow> error + cell" where
  "add_cell (Num x) (Num y) = Inr (Num (x + y))"
| "add_cell (Num x) (I64 j) = Inr (Num (x + of_int (sint j)))"
| "add_cell (I64 i) (Num y) = Inr (Num (of_int (sint i) + y))"
| "add_cell (I64 i) (I64 j) = Inr (I64 (i + j))"
| "add_cell (Str s) (Str t) = Inr (Str (s @ t))"
| "add_cell (Str s) (Num y) = Inl OtherError"
| "add_cell (Str s) (I64 j) = Inl OtherError"
| "add_cell (Num x) (Str t) = Inl OtherError"
| "add_cell (I64 i) (Str t) = Inl OtherError"
| "add_cell NaN v = Inr NaN"
| "add_cell (Num x) NaN = Inr NaN"
| "add_cell (I64 i) NaN = Inr NaN"
| "add_cell (Str s) NaN = Inr NaN"

record binned_row = log_row +
  RPM_bin :: "real option"
  MAP_bin :: "real option"
  TotalTrim :: cell

definition add_columns_row :: "int \<Rightarrow> int \<Rightarrow> log_row \<Rightarrow> error + binned_row" where
  "add_columns_row rpm_bin_size map_bin_size r =
     (case bin_cell (RPM r) rpm_bin_size of Inl e \<Rightarrow> Inl e | Inr rb \<Rightarrow>
     (case bin_cell (MAP_mbar r) map_bin_size of Inl e \<Rightarrow> Inl e | Inr mb \<Rightarrow>
     (case add_cell (STFT r) (LTFT r) of Inl e \<Rightarrow> Inl e | Inr t \<Rightarrow>
        Inr \<lparr>MAP_mbar = MAP_mbar r, RPM = RPM r, STFT = STFT r, LTFT = LTFT r,
             RPM_bin = rb, MAP_bin = mb, TotalTrim = t\<rparr>)))"

text \<open>
  The three operations work on whole columns, and whether a column is text is a matter
  of its type, which it has from the log as it was read and keeps when rows are dropped.
  So \<^verbatim>\<open>//\<close> on a text column raises, and so does \<^verbatim>\<open>+\<close> of a text column and a number
  column, also when the filter has left no row. \<open>dtypes_of\<close> reads off the table before
  the filter which of the four columns are text.
\<close>

record dtypes =
  text_MAP_mbar :: bool
  text_RPM :: bool
  text_STFT :: bool
  text_LTFT :: bool

definition dtypes_of :: "log_row list \<Rightarrow> dtypes" where
  "dtypes_of df_log =
     \<lparr>text_MAP_mbar = (\<exists>r \<in> set df_log. is_Str (MAP_mbar r)),
      text_RPM = (\<exists>r \<in> set df_log. is_Str (RPM r)),
      text_STFT = (\<exists>r \<in> set df_log. is_Str (STFT r)),
      text_LTFT = (\<exists>r \<in> set df_log. is_Str (LTFT r))\<rparr>"

definition add_columns :: "dtypes \<Rightarrow> int \<Rightarrow> int \<Rightarrow> log_row list \<Rightarrow> error + binned_row list" where
  "add_columns dt rpm_bin_size map_bin_size df =
     (if text_RPM dt \<or> text_MAP_mbar dt \<or> text_STFT dt \<noteq> text_LTFT dt then Inl OtherError
      else traverse (add_columns_row rpm_bin_size map_bin_size) df)"

text \<open>The value column of a pivot table: one of the three trim signals.\<close>

datatype value_col = Col_STFT | Col_LTFT | Col_TotalTrim

fun value_of :: "value_col \<Rightarrow> binned_row \<Rightarrow> cell" where
  "value_of Col_STFT r = STFT r"
| "value_of Col_LTFT r = LTFT r"
| "value_of Col_TotalTrim r = TotalTrim r"

datatype aggfunc = Mean | Count

text \<open>
  A grid is a table whose row labels are MAP bins and whose column labels are RPM bins,
  both ascending; \<open>cell f (m, r)\<close> is what it holds at row \<open>m\<close> and column \<open>r\<close>. A grid of
  numbers holds \<open>None\<close> where pandas holds NaN. \<open>frame_at\<close> reads a grid at a key and
  is \<open>None\<close> where the grid has no such row or column.
\<close>

record 'a frame =
  index :: "real list"
  columns :: "real list"
  cell :: "real \<times> real \<Rightarrow> 'a"

definition frame_at :: "'a frame \<Rightarrow> real \<times> real \<Rightarrow> 'a option" where
  "frame_at f k = (if fst k \<in> set (index f) \<and> snd k \<in> set (columns f) then Some (cell f k) else None)"

text \<open>The number a grid of numbers holds at a key, if it holds one.\<close>

definition lookup :: "real option frame \<Rightarrow> real \<times> real \<Rightarrow> real option" where
  "lookup f k = (case frame_at f k of Some (Some v) \<Rightarrow> Some v | _ \<Rightarrow> None)"

text \<open>
  \<^verbatim>\<open>pivot_table(index='MAP_bin', columns='RPM_bin', values=c, aggfunc=...)\<close> groups the
  rows by the pair of bins, a row with an empty bin belonging to no group, and applies
  the aggregate to the cells of each group. Groups are collected in one pass over the rows.
\<close>

fun group_add :: "('k \<times> 'v list) list \<Rightarrow> 'k \<Rightarrow> 'v \<Rightarrow> ('k \<times> 'v list) list" where
  "group_add [] k v = [(k, [v])]"
| "group_add ((k', vs) # g) k v =
     (if k' = k then (k', vs @ [v]) # g else (k', vs) # group_add g k v)"

definition group_step ::
    "value_col \<Rightarrow> ((real \<times> real) \<times> cell list) list \<Rightarrow> binned_row \<Rightarrow> ((real \<times> real) \<times> cell list) list" where
  "group_step c g r =
     (case (MAP_bin r, RPM_bin r) of
        (Some m, Some p) \<Rightarrow> group_add g (m, p) (value_of c r)
      | _ \<Rightarrow> g)"

definition groupby :: "value_col \<Rightarrow> binned_row list \<Rightarrow> ((real \<times> real) \<times> cell list) list" where
  "groupby c df = foldl (group_step c) [] df"

text \<open>
  \<open>mean\<close> skips empty cells and is NaN when nothing is left; \<open>count\<close> is the number of
  cells that are not empty.
\<close>

fun nums :: "cell list \<Rightarrow> real list" where
  "nums [] = []"
| "nums (v # vs) = (case number v of Some x \<Rightarrow> x # nums vs | None \<Rightarrow> nums vs)"

fun aggregate :: "aggfunc \<Rightarrow> cell list \<Rightarrow> real option" where
  "aggregate Mean vs =
     (if nums vs = [] then None else Some (sum_list (nums vs) / of_nat (length (nums vs))))"
| "aggregate Count vs = Some (of_nat (length (filter (\<lambda>v. v \<noteq> NaN) vs)))"

text \<open>
  The aggregated groups whose value is NaN are dropped (\<^verbatim>\<open>dropna=True\<close>, the default);
  the others are spread over the grid of their bins. The mean of a column that holds
  text raises.
\<close>

definition agged :: "value_col \<Rightarrow> aggfunc \<Rightarrow> binned_row list \<Rightarrow> ((real \<times> real) \<times> real) list" where
  "agged c agg df =
     concat (map (\<lambda>(k, vs). case aggregate agg vs of None \<Rightarrow> [] | Some a \<Rightarrow> [(k, a)])
       (groupby c df))"

definition unstack :: "((real \<times> real) \<times> real) list \<Rightarrow> real option frame" where
  "unstack table =
     \<lparr>index = sort (remdups (map (fst \<circ> fst) table)),
      columns = sort (remdups (map (snd \<circ> fst) table)),
      cell = map_of table\<rparr>"

definition pivot_table :: "binned_row list \<Rightarrow> value_col \<Rightarrow> aggfunc \<Rightarrow> error + real option frame" where
  "pivot_table df c agg =
     (if agg = Mean \<and> (\<exists>r \<in> set df. is_Str (value_of c r)) then Inl OtherError
      else Inr (unstack (agged c agg df)))"

section \<open>Validity masks\<close>

text \<open>
  Comparing a grid of numbers with a number gives a grid of booleans on the same labels,
  false where the grid holds NaN.
\<close>

definition frame_ge :: "real option frame \<Rightarrow> real \<Rightarrow> bool frame" where
  "frame_ge f c =
     \<lparr>index = index f, columns = columns f,
      cell = (\<lambda>k. case cell f k of None \<Rightarrow> False | Some v \<Rightarrow> c \<le> v)\<rparr>"

definition frame_le :: "real option frame \<Rightarrow> real \<Rightarrow> bool frame" where
  "frame_le f c =
     \<lparr>index = index f, columns = columns f,
      cell = (\<lambda>k. case cell f k of None \<Rightarrow> False | Some v \<Rightarrow> v \<le> c)\<rparr>"

text \<open>
  \<^verbatim>\<open>&\<close> and \<^verbatim>\<open>|\<close> of two grids of booleans work cell by cell when the two grids have the
  same labels, as those of the script have. Otherwise pandas first aligns them on the
  union of their labels, and the result is NaN at a cell that one of the two lacks;
  \<^verbatim>\<open>where\<close> reads NaN as false, and the model holds false there.
\<close>

definition align :: "real list \<Rightarrow> real list \<Rightarrow> real list" where
  "align xs ys = (if xs = ys then xs else sort (remdups (xs @ ys)))"

definition frame_and :: "bool frame \<Rightarrow> bool frame \<Rightarrow> bool frame" where
  "frame_and a b =
     \<lparr>index = align (index a) (index b), columns = align (columns a) (columns b),
      cell = (\<lambda>k. frame_at a k = Some True \<and> frame_at b k = Some True)\<rparr>"

definition frame_or :: "bool frame \<Rightarrow> bool frame \<Rightarrow> bool frame" where
  "frame_or a b =
     \<lparr>index = align (index a) (index b), columns = align (columns a) (columns b),
      cell = (\<lambda>k. case (frame_at a k, frame_at b k) of
                     (Some x, Some y) \<Rightarrow> x \<or> y
                   | _ \<Rightarrow> False)\<rparr>"

text \<open>\<^verbatim>\<open>f.where(mask)\<close> keeps the cells of \<open>f\<close> where the mask is true and blanks the others.\<close>

definition frame_where :: "real option frame \<Rightarrow> bool frame \<Rightarrow> real option frame" where
  "frame_where f keep =
     \<lparr>index = index f, columns = columns f,
      cell = (\<lambda>k. if frame_at keep k = Some True then cell f k else None)\<rparr>"

text \<open>
  The settings of the sidebar, which the script reads as globals: the two bin sizes, the
  least number of samples, the range of trims, the button, and the view chosen.
\<close>

datatype view = View_STFT | View_LTFT | View_Combined | View_SideBySide

fun trim_modes :: "view \<Rightarrow> value_col option" where
  "trim_modes View_STFT = Some Col_STFT"
| "trim_modes View_LTFT = Some Col_LTFT"
| "trim_modes View_Combined = Some Col_TotalTrim"
| "trim_modes View_SideBySide = None"

record config =
  rpm_bin_size :: int
  map_bin_size :: int
  min_samples :: int
  trim_range :: "int \<times> int"
  update_button :: bool
  selected_mode :: view

text \<open>
  \<^verbatim>\<open>create_trim_heatmap\<close> (lines 73 to 91) returns the figure and the mask; of the figure
  the model keeps \<open>z\<close>, the numbers it shows. \<^verbatim>\<open>create_count_heatmap\<close> (lines 93 to 109)
  likewise.
\<close>

definition create_trim_heatmap ::
    "config \<Rightarrow> real option frame \<Rightarrow> real option frame \<Rightarrow> real option frame \<times> bool frame" where
  "create_trim_heatmap cfg pivot_df count_df =
     (let (min_trim, max_trim) = trim_range cfg;
          keep = frame_and
                   (frame_and (frame_ge count_df (of_int (min_samples cfg)))
                              (frame_ge pivot_df (of_int min_trim)))
                   (frame_le pivot_df (of_int max_trim));
          z = frame_where pivot_df keep
      in (z, keep))"

definition create_count_heatmap :: "real option frame \<Rightarrow> bool frame \<Rightarrow> real option frame" where
  "create_count_heatmap count_df keep = frame_where count_df keep"

definition create_timeseries_chart :: "binned_row list \<Rightarrow> cell list \<times> cell list \<times> cell list" where
  "create_timeseries_chart df = (map STFT df, map LTFT df, map TotalTrim df)"

section \<open>The whole computation\<close>

record charts =
  fig_trims :: "real option frame list"
  masks :: "bool frame list"
  count_grid :: "real option frame"
  count_mask :: "bool frame"
  fig_count :: "real option frame"
  ts_chart :: "cell list \<times> cell list \<times> cell list"

text \<open>Lines 131 to 162: what a press of the button computes from the binned rows.\<close>

definition heatmaps :: "config \<Rightarrow> binned_row list \<Rightarrow> error + charts" where
  "heatmaps cfg df =
     (case trim_modes (selected_mode cfg) of
        Some value_col \<Rightarrow>
          (case pivot_table df value_col Mean of Inl e \<Rightarrow> Inl e | Inr pivot \<Rightarrow>
          (case pivot_table df value_col Count of Inl e \<Rightarrow> Inl e | Inr count \<Rightarrow>
             (let (fig_trim, valid_mask) = create_trim_heatmap cfg pivot count
              in Inr \<lparr>fig_trims = [fig_trim], masks = [valid_mask], count_grid = count,
                      count_mask = valid_mask,
                      fig_count = create_count_heatmap count valid_mask,
                      ts_chart = create_timeseries_chart df\<rparr>)))
      | None \<Rightarrow>
          (case pivot_table df Col_STFT Mean of Inl e \<Rightarrow> Inl e | Inr pivot_stft \<Rightarrow>
          (case pivot_table df Col_LTFT Mean of Inl e \<Rightarrow> Inl e | Inr pivot_ltft \<Rightarrow>
          (case pivot_table df Col_STFT Count of Inl e \<Rightarrow> Inl e | Inr count \<Rightarrow>
             (let (fig_stft, mask_stft) = create_trim_heatmap cfg pivot_stft count;
                  (fig_ltft, mask_ltft) = create_trim_heatmap cfg pivot_ltft count;
                  combined_mask = frame_or mask_stft mask_ltft
              in Inr \<lparr>fig_trims = [fig_stft, fig_ltft], masks = [mask_stft, mask_ltft],
                      count_grid = count, count_mask = combined_mask,
                      fig_count = create_count_heatmap count combined_mask,
                      ts_chart = create_timeseries_chart df\<rparr>)))))"

text \<open>
  Lines 41 to 168. The result is an error, or nothing when the button was not pressed, or
  the grids, masks and series.
\<close>

definition bin_records :: "config \<Rightarrow> cell dataframe \<Rightarrow> (string \<times> string) list \<Rightarrow> error + binned_row list" where
  "bin_records cfg df_log column_mapping =
     (case required_rows (rename column_mapping df_log) of Inl e \<Rightarrow> Inl e | Inr rws \<Rightarrow>
     (case record_filter rws of Inl e \<Rightarrow> Inl e | Inr df \<Rightarrow>
        add_columns (dtypes_of rws) (rpm_bin_size cfg) (map_bin_size cfg) df))"

definition app :: "config \<Rightarrow> cell dataframe \<Rightarrow> string dataframe \<Rightarrow> error + charts option" where
  "app cfg df_log df_map =
     (case resolve df_map of Inl e \<Rightarrow> Inl e | Inr column_mapping \<Rightarrow>
     (case bin_records cfg df_log column_mapping of Inl e \<Rightarrow> Inl e | Inr df \<Rightarrow>
        (if update_button cfg
         then (case heatmaps cfg df of Inl e \<Rightarrow> Inl e | Inr out \<Rightarrow> Inr (Some out))
         else Inr None)))"

section \<open>Notions of the specification\<close>

text \<open>
  The records of a bin: the rows whose pair of bins is the key \<open>(MAP bin, RPM bin)\<close>, in
  the order of the table.
\<close>

definition members :: "real \<times> real \<Rightarrow> binned_row list \<Rightarrow> binned_row list" where
  "members k df = filter (\<lambda>r. MAP_bin r = Some (fst k) \<and> RPM_bin r = Some (snd k)) df"

text \<open>A cell that holds a number, and one that holds a positive number.\<close>

definition numeric :: "cell \<Rightarrow> bool" where
  "numeric v = (case number v of Some x \<Rightarrow> True | None \<Rightarrow> False)"

definition positive :: "cell \<Rightarrow> bool" where
  "positive v = (case number v of Some x \<Rightarrow> 0 < x | None \<Rightarrow> False)"

text \<open>
  The rows the specification says are dropped: a required field is empty or is not a
  number, or \<open>MAP_mbar\<close> or \<open>RPM\<close> is not positive.
\<close>

definition dropped_by_spec :: "log_row \<Rightarrow> bool" where
  "dropped_by_spec r =
     (\<not> numeric (MAP_mbar r) \<or> \<not> numeric (RPM r) \<or> \<not> numeric (STFT r) \<or> \<not> numeric (LTFT r)
      \<or> \<not> positive (MAP_mbar r) \<or> \<not> positive (RPM r))"

text \<open>The rows the script keeps: no required cell is empty, and both \<open>MAP_mbar\<close> and \<open>RPM\<close> are positive numbers.\<close>

definition kept :: "log_row \<Rightarrow> bool" where
  "kept r =
     (MAP_mbar r \<noteq> NaN \<and> RPM r \<noteq> NaN \<and> STFT r \<noteq> NaN \<and> LTFT r \<noteq> NaN
      \<and> positive (MAP_mbar r) \<and> positive (RPM r))"

section \<open>A small log\<close>

text \<open>
  A log of six rows under its own column names, the mapping file that renames them, and
  the settings of a run. RPM and MAP are float columns, the two trims integer columns.
  The third row has a negative RPM and the fourth an empty MAP; the other four fall into
  three bins, the last two into the same one.
\<close>

definition ex_df_log :: "cell dataframe" where
  "ex_df_log =
     [(''Engine RPM'', [Num 1000, Num 999.5, Num (-5), Num 1000, Num 1499, Num 1100]),
      (''Manifold'', [Num 500, Num 512.5, Num 500, NaN, Num 551, Num 560]),
      (''ST'', [I64 2, I64 4, I64 2, I64 2, I64 3, I64 6]),
      (''LT'', [I64 1, I64 1, I64 1, I64 1, I64 (-1), I64 0]),
      (''Gear'', [Str ''N'', Str ''D'', Str ''D'', NaN, Str ''D'', Str ''D''])]"

definition ex_df_map :: "string dataframe" where
  "ex_df_map =
     [(''original'', [''Manifold'', ''Engine RPM'', ''ST'', ''LT'']),
      (''new'', [''MAP_mbar'', ''RPM'', ''STFT'', ''LTFT''])]"

definition ex_cfg :: config where
  "ex_cfg = \<lparr>rpm_bin_size = 500, map_bin_size = 50, min_samples = 1, trim_range = (-1, 4),
             update_button = True, selected_mode = View_SideBySide\<rparr>"

definition ex_rows :: "log_row list" where
  "ex_rows =
     [\<lparr>MAP_mbar = Num 500, RPM = Num 1000, STFT = I64 2, LTFT = I64 1\<rparr>,
      \<lparr>MAP_mbar = Num 512.5, RPM = Num 999.5, STFT = I64 4, LTFT = I64 1\<rparr>,
      \<lparr>MAP_mbar = Num 500, RPM = Num (-5), STFT = I64 2, LTFT = I64 1\<rparr>,
      \<lparr>MAP_mbar = NaN, RPM = Num 1000, STFT = I64 2, LTFT = I64 1\<rparr>,
      \<lparr>MAP_mbar = Num 551, RPM = Num 1499, STFT = I64 3, LTFT = I64 (-1)\<rparr>,
      \<lparr>MAP_mbar = Num 560, RPM = Num 1100, STFT = I64 6, LTFT = I64 0\<rparr>]"

definition ex_filtered :: "log_row list" where
  "ex_filtered =
     [\<lparr>MAP_mbar = Num 500, RPM = Num 1000, STFT = I64 2, LTFT = I64 1\<rparr>,
      \<lparr>MAP_mbar = Num 512.5, RPM = Num 999.5, STFT = I64 4, LTFT = I64 1\<rparr>,
      \<lparr>MAP_mbar = Num 551, RPM = Num 1499, STFT = I64 3, LTFT = I64 (-1)\<rparr>,
      \<lparr>MAP_mbar = Num 560, RPM = Num 1100, STFT = I64 6, LTFT = I64 0\<rparr>]"

definition ex_binned :: "binned_row list" where
  "ex_binned =
     [\<lparr>MAP_mbar = Num 500, RPM = Num 1000, STFT = I64 2, LTFT = I64 1,
       RPM_bin = Some 1000, MAP_bin = Some 500, TotalTrim = I64 3\<rparr>,
      \<lparr>MAP_mbar = Num 512.5, RPM = Num 999.5, STFT = I64 4, LTFT = I64 1,
       RPM_bin = Some 500, MAP_bin = Some 500, TotalTrim = I64 5\<rparr>,
      \<lparr>MAP_mbar = Num 551, RPM = Num 1499, STFT = I64 3, LTFT = I64 (-1),
       RPM_bin = Some 1000, MAP_bin = Some 550, TotalTrim = I64 2\<rparr>,
      \<lparr>MAP_mbar = Num 560, RPM = Num 1100, STFT = I64 6, LTFT = I64 0,
       RPM_bin = Some 1000, MAP_bin = Some 550, TotalTrim = I64 6\<rparr>]"

text \<open>
  Two mapping files that fail the checks: one calls its second column \<open>target\<close>, the other
  has no row for LTFT. And a log none of whose rows passes the filter.
\<close>

definition ex_df_map_no_new :: "string dataframe" where
  "ex_df_map_no_new =
     [(''original'', [''Manifold'', ''Engine RPM'', ''ST'', ''LT'']),
      (''target'', [''MAP_mbar'', ''RPM'', ''STFT'', ''LTFT''])]"

definition ex_df_map_no_ltft :: "string dataframe" where
  "ex_df_map_no_ltft =
     [(''original'', [''Manifold'', ''Engine RPM'', ''ST'']),
      (''new'', [''MAP_mbar'', ''RPM'', ''STFT''])]"



definition ex_column_mapping :: "(string \<times> string) list" where
  "ex_column_mapping =
     [(''Manifold'', ''MAP_mbar''), (''Engine RPM'', ''RPM''), (''ST'', ''STFT''), (''LT'', ''LTFT'')]"

text \<open>
  A log with two RPM columns, a mapping file that sends both to \<open>RPM\<close>, and the same
  mapping file without the first of the two rows. And two rows that hold text.
\<close>

definition ex_df_log_dup :: "cell dataframe" where
  "ex_df_log_dup =
     [(''Engine RPM'', [Num 1000]),
      (''Wheel RPM'', [Num 2000]),
      (''Manifold'', [Num 500]),
      (''ST'', [Num 2]),
      (''LT'', [Num 1])]"

definition ex_df_map_dup :: "string dataframe" where
  "ex_df_map_dup =
     [(''original'', [''Manifold'', ''Engine RPM'', ''Wheel RPM'', ''ST'', ''LT'']),
      (''new'', [''MAP_mbar'', ''RPM'', ''RPM'', ''STFT'', ''LTFT''])]"

definition ex_df_map_last :: "string dataframe" where
  "ex_df_map_last =
     [(''original'', [''Manifold'', ''Wheel RPM'', ''ST'', ''LT'']),
      (''new'', [''MAP_mbar'', ''RPM'', ''STFT'', ''LTFT''])]"



text \<open>A row whose two trims are integers and add up to more than 64 bits hold.\<close>

definition ex_rows_wrap :: "log_row list" where
  "ex_rows_wrap =
     [\<lparr>MAP_mbar = Num 500, RPM = Num 1000, STFT = I64 9223372036854775807, LTFT = I64 1\<rparr>]"

definition ex_binned_wrap :: "binned_row list" where
  "ex_binned_wrap =
     [\<lparr>MAP_mbar = Num 500, RPM = Num 1000, STFT = I64 9223372036854775807, LTFT = I64 1,
       RPM_bin = Some 1000, MAP_bin = Some 500, TotalTrim = I64 (- 9223372036854775808)\<rparr>]"

definition ex_row_text_stft :: log_row where
  "ex_row_text_stft = \<lparr>MAP_mbar = Num 500, RPM = Num 1000, STFT = Str ''abc'', LTFT = Num 1\<rparr>"

definition ex_row_text_rpm :: log_row where
  "ex_row_text_rpm = \<lparr>MAP_mbar = Num 500, RPM = Str ''abc'', STFT = Num 2, LTFT = Num 1\<rparr>"

section \<open>Lists of results\<close>

lemma traverse_Inr_iff: "traverse f xs = Inr ys \<longleftrightarrow> map f xs = map Inr ys"
proof (induction xs arbitrary: ys)
  case Nil
  then show ?case by auto
next
  case (Cons x xs)
  show ?case
  proof (cases "f x")
    case (Inl e)
    then show ?thesis by (cases ys) auto
  next
    case (Inr y)
    show ?thesis
    proof (cases "traverse f xs")
      case (Inl e)
      with Cons.IH have "\<And>zs. map f xs \<noteq> map Inr zs" by auto
      with Inl Inr show ?thesis by (cases ys) auto
    next
      case r: (Inr zs)
      with Cons.IH have "map f xs = map Inr zs" by auto
      with r Inr show ?thesis by (cases ys) auto
    qed
  qed
qed

lemma traverse_Inl_iff: "(\<exists>e. traverse f xs = Inl e) \<longleftrightarrow> (\<exists>x \<in> set xs. \<exists>e. f x = Inl e)"
  by (induction xs) (auto split: sum.splits)

lemma traverse_member:
  assumes "traverse f xs = Inr ys" and "y \<in> set ys"
  shows "\<exists>x \<in> set xs. f x = Inr y"
proof -
  from assms(1) have "map f xs = map Inr ys" by (simp add: traverse_Inr_iff)
  then have "Inr y \<in> set (map f xs)" using assms(2) by simp
  then show ?thesis by auto
qed

section \<open>The record filter\<close>

lemma traverse_cell_gt:
  "traverse (\<lambda>r. cell_gt (g r) c) xs =
     (if \<exists>r \<in> set xs. is_Str (g r) then Inl OtherError
      else Inr (map (\<lambda>r. case number (g r) of Some x \<Rightarrow> c < x | None \<Rightarrow> False) xs))"
proof (induction xs)
  case Nil
  then show ?case by simp
next
  case (Cons r xs)
  then show ?case by (cases "g r") (auto simp: is_Str_def)
qed

lemma boolean_index_map2:
  "boolean_index xs (map2 (\<lambda>a b. a \<and> b) (map p xs) (map q xs)) = filter (\<lambda>x. p x \<and> q x) xs"
  by (induction xs) (auto simp: boolean_index_def)

lemma record_filter_eq:
  "record_filter rs =
     (if \<exists>r \<in> set (dropna rs). is_Str (MAP_mbar r) \<or> is_Str (RPM r) then Inl OtherError
      else Inr (filter kept rs))"
proof -
  have "filter (\<lambda>r. positive (MAP_mbar r) \<and> positive (RPM r)) (dropna rs) = filter kept rs"
    by (auto simp: dropna_def kept_def intro: filter_cong)
  then show ?thesis
    by (auto simp: record_filter_def Let_def traverse_cell_gt boolean_index_map2 positive_def)
qed

lemma record_filter_kept:
  assumes "record_filter rs = Inr df" and "r \<in> set df"
  shows "kept r"
  using assms by (auto simp: record_filter_eq split: if_splits)

section \<open>Groups\<close>

lemma map_of_group_add:
  "map_of (group_add g k v) =
     (map_of g)(k \<mapsto> (case map_of g k of None \<Rightarrow> [v] | Some vs \<Rightarrow> vs @ [v]))"
  by (induction g) (auto simp: fun_eq_iff)

lemma keys_group_add: "fst ` set (group_add g k v) = insert k (fst ` set g)"
proof -
  have "fst ` set (group_add g k v) = dom (map_of (group_add g k v))"
    by (simp add: dom_map_of_conv_image_fst)
  also have "\<dots> = insert k (dom (map_of g))"
    by (simp add: map_of_group_add)
  finally show ?thesis by (simp add: dom_map_of_conv_image_fst)
qed

lemma distinct_group_add:
  "distinct (map fst g) \<Longrightarrow> distinct (map fst (group_add g k v))"
  by (induction g) (auto simp: keys_group_add)

lemma distinct_group_step: "distinct (map fst g) \<Longrightarrow> distinct (map fst (group_step c g r))"
  by (auto simp: group_step_def distinct_group_add split: option.splits)

lemma map_of_group_step:
  "map_of (group_step c g r) k =
     (if MAP_bin r = Some (fst k) \<and> RPM_bin r = Some (snd k)
      then Some ((case map_of g k of None \<Rightarrow> [] | Some vs \<Rightarrow> vs) @ [value_of c r])
      else map_of g k)"
  by (cases k) (auto simp: group_step_def map_of_group_add split: option.splits)

lemma map_of_foldl_group_step:
  "map_of (foldl (group_step c) g df) k =
     (if members k df = [] then map_of g k
      else Some ((case map_of g k of None \<Rightarrow> [] | Some vs \<Rightarrow> vs) @ map (value_of c) (members k df)))"
proof (induction df arbitrary: g)
  case Nil
  then show ?case by (simp add: members_def)
next
  case (Cons r df)
  show ?case
    by (simp add: Cons.IH map_of_group_step members_def)
qed

lemma distinct_foldl_group_step:
  "distinct (map fst g) \<Longrightarrow> distinct (map fst (foldl (group_step c) g df))"
  by (induction df arbitrary: g) (auto simp: distinct_group_step)

lemma map_of_groupby:
  "map_of (groupby c df) k =
     (if members k df = [] then None else Some (map (value_of c) (members k df)))"
  by (simp add: groupby_def map_of_foldl_group_step)

lemma distinct_groupby: "distinct (map fst (groupby c df))"
  by (simp add: groupby_def distinct_foldl_group_step)

lemma map_of_concat_agg:
  "distinct (map fst g) \<Longrightarrow>
   map_of (concat (map (\<lambda>(k, vs). case h vs of None \<Rightarrow> [] | Some a \<Rightarrow> [(k, a)]) g)) k =
     (case map_of g k of None \<Rightarrow> None | Some vs \<Rightarrow> h vs)"
proof (induction g)
  case Nil
  then show ?case by simp
next
  case (Cons p g)
  obtain k' vs where p: "p = (k', vs)" by (cases p)
  from Cons.prems p have notin: "k' \<notin> fst ` set g" and d: "distinct (map fst g)" by auto
  from notin have none: "map_of g k' = None" by (simp add: map_of_eq_None_iff)
  show ?case
    using Cons.IH[OF d] none by (auto simp: p split: option.splits)
qed

lemma map_of_agged:
  "map_of (agged c agg df) k =
     (if members k df = [] then None else aggregate agg (map (value_of c) (members k df)))"
  by (simp add: agged_def map_of_concat_agg[OF distinct_groupby] map_of_groupby)

lemma lookup_unstack: "lookup (unstack t) k = map_of t k"
proof (cases "map_of t k")
  case None
  then show ?thesis by (simp add: lookup_def frame_at_def unstack_def)
next
  case (Some v)
  then have "(k, v) \<in> set t" by (rule map_of_SomeD)
  then have "fst k \<in> (fst \<circ> fst) ` set t" "snd k \<in> (snd \<circ> fst) ` set t" by force+
  with Some show ?thesis by (simp add: lookup_def frame_at_def unstack_def)
qed

section \<open>The binned rows\<close>

lemma add_columns_row_Inr:
  assumes "add_columns_row rs ms r0 = Inr r"
  shows "MAP_mbar r = MAP_mbar r0 \<and> RPM r = RPM r0 \<and> STFT r = STFT r0 \<and> LTFT r = LTFT r0
         \<and> bin_cell (RPM r0) rs = Inr (RPM_bin r) \<and> bin_cell (MAP_mbar r0) ms = Inr (MAP_bin r)
         \<and> add_cell (STFT r0) (LTFT r0) = Inr (TotalTrim r)"
  using assms by (auto simp: add_columns_row_def split: sum.splits)

lemma add_columns_Inr:
  assumes "add_columns dt rs ms df0 = Inr df"
  shows "traverse (add_columns_row rs ms) df0 = Inr df"
    and "\<not> text_RPM dt" and "\<not> text_MAP_mbar dt" and "text_STFT dt = text_LTFT dt"
  using assms by (auto simp: add_columns_def split: if_splits)

text \<open>What the filter and the three new columns guarantee of every row that is binned.\<close>

lemma binned_row_facts:
  assumes "record_filter rws = Inr df0" and "add_columns (dtypes_of rws) rs ms df0 = Inr df" and "r \<in> set df"
  shows "positive (MAP_mbar r) \<and> positive (RPM r)
           \<and> bin_cell (RPM r) rs = Inr (RPM_bin r) \<and> bin_cell (MAP_mbar r) ms = Inr (MAP_bin r)
           \<and> STFT r \<noteq> NaN \<and> LTFT r \<noteq> NaN
           \<and> add_cell (STFT r) (LTFT r) = Inr (TotalTrim r)"
proof -
  from add_columns_Inr(1)[OF assms(2)] assms(3)
  obtain r0 where r0: "r0 \<in> set df0" "add_columns_row rs ms r0 = Inr r"
    by (blast dest: traverse_member)
  from assms(1) r0(1) have k: "kept r0" by (rule record_filter_kept)
  from add_columns_row_Inr[OF r0(2)] k show ?thesis
    by (simp add: kept_def)
qed

text \<open>
  The bin of a positive number, for a positive bin size: an integer cell is binned in 64
  bits, and nothing wraps around, since the bin lies between 0 and the number.
\<close>

lemma sint_floordiv64_times:
  assumes "0 < sint i" and "0 < n"
  shows "sint (floordiv64 i n * word_of_int n) = sint i div n * n"
proof -
  have lo: "0 \<le> sint i div n * n"
    using assms by (simp add: pos_imp_zdiv_nonneg_iff)
  have "sint i div n * n \<le> sint i"
    using div_mult_mod_eq[of "sint i" n] pos_mod_sign[of n "sint i"] assms(2) by linarith
  moreover have "sint i < 2 ^ 63"
    using sint_lt[of i] by simp
  ultimately have hi: "sint i div n * n < 2 ^ 63" by linarith
  have "floordiv64 i n * word_of_int n = (word_of_int (sint i div n * n) :: 64 word)"
    by (simp add: floordiv64_def)
  then have "sint (floordiv64 i n * word_of_int n) =
             sint (word_of_int (sint i div n * n) :: 64 word)"
    by (simp only:)
  also have "\<dots> = signed_take_bit 63 (sint i div n * n)"
    by (simp only: sint_sbintrunc') simp
  also have "signed_take_bit 63 (sint i div n * n) = sint i div n * n"
    using lo hi by (intro signed_take_bit_int_eq_self) simp_all
  finally show ?thesis .
qed

lemma bin_cell_positive:
  assumes "positive v" and "0 < n"
  shows "\<exists>x. number v = Some x \<and> 0 < x
           \<and> bin_cell v n = Inr (Some (of_int \<lfloor>x / of_int n\<rfloor> * of_int n))"
proof (cases v)
  case NaN
  with assms show ?thesis by (simp add: positive_def)
next
  case (Num x)
  with assms show ?thesis by (simp add: positive_def floordiv_def)
next
  case (I64 i)
  with assms have p: "0 < sint i" by (simp add: positive_def del: of_int_sint)
  have "\<lfloor>real_of_int (sint i) / real_of_int n\<rfloor> = sint i div n"
    by (rule floor_divide_of_int_eq)
  with I64 p assms(2) show ?thesis
    by (simp add: sint_floordiv64_times del: of_int_sint)
next
  case (Str s)
  with assms show ?thesis by (simp add: positive_def)
qed

lemma add_cell_not_NaN:
  assumes "add_cell s l = Inr t" and "s \<noteq> NaN" and "l \<noteq> NaN"
  shows "t \<noteq> NaN"
  using assms by (cases s; cases l) auto

lemma value_of_not_NaN:
  assumes "record_filter rws = Inr df0" and "add_columns (dtypes_of rws) rs ms df0 = Inr df" and "r \<in> set df"
  shows "value_of c r \<noteq> NaN"
proof -
  from binned_row_facts[OF assms] have "STFT r \<noteq> NaN" "LTFT r \<noteq> NaN"
    "add_cell (STFT r) (LTFT r) = Inr (TotalTrim r)" by auto
  then show ?thesis by (cases c) (auto dest: add_cell_not_NaN)
qed

lemma all_numbers:
  assumes "\<forall>v \<in> set vs. v \<noteq> NaN \<and> \<not> is_Str v"
  shows "map number vs = map Some (nums vs)"
  using assms
proof (induction vs)
  case Nil
  then show ?case by simp
next
  case (Cons v vs)
  then show ?case by (cases v) (auto simp: is_Str_def)
qed

lemma filter_not_NaN:
  assumes "\<forall>v \<in> set vs. v \<noteq> NaN"
  shows "filter (\<lambda>v. v \<noteq> NaN) vs = vs"
  using assms by (induction vs) auto

lemma set_members: "set (members k df) \<subseteq> set df"
  by (auto simp: members_def)

lemma pivot_table_Inr:
  assumes "pivot_table df c agg = Inr f"
  shows "f = unstack (agged c agg df)" and "agg = Mean \<Longrightarrow> r \<in> set df \<Longrightarrow> \<not> is_Str (value_of c r)"
  using assms by (auto simp: pivot_table_def split: if_splits)

lemma lookup_pivot_table:
  assumes "pivot_table df c agg = Inr f"
  shows "lookup f k =
     (if members k df = [] then None else aggregate agg (map (value_of c) (members k df)))"
  using pivot_table_Inr(1)[OF assms] by (simp add: lookup_unstack map_of_agged)

lemma member_values_not_NaN:
  assumes "record_filter rws = Inr df0" and "add_columns (dtypes_of rws) rs ms df0 = Inr df"
    and "v \<in> set (map (value_of c) (members k df))"
  shows "v \<noteq> NaN"
proof -
  from assms(3) obtain r where "r \<in> set (members k df)" "v = value_of c r" by auto
  moreover from this have "r \<in> set df" using set_members by blast
  ultimately show ?thesis using value_of_not_NaN[OF assms(1,2)] by simp
qed

lemma member_values_Num:
  assumes "record_filter rws = Inr df0" and "add_columns (dtypes_of rws) rs ms df0 = Inr df"
    and "pivot_table df c Mean = Inr pivot"
  shows "map number (map (value_of c) (members k df)) =
         map Some (nums (map (value_of c) (members k df)))"
proof (rule all_numbers, rule ballI)
  fix v assume v: "v \<in> set (map (value_of c) (members k df))"
  then obtain r where "r \<in> set (members k df)" "v = value_of c r" by auto
  moreover from this have "r \<in> set df" using set_members by blast
  ultimately have "\<not> is_Str v" using pivot_table_Inr(2)[OF assms(3)] by simp
  with member_values_not_NaN[OF assms(1,2) v] show "v \<noteq> NaN \<and> \<not> is_Str v" by simp
qed

lemma count_members:
  assumes "record_filter rws = Inr df0" and "add_columns (dtypes_of rws) rs ms df0 = Inr df"
  shows "aggregate Count (map (value_of c) (members k df)) = Some (of_nat (length (members k df)))"
proof -
  have "filter (\<lambda>v. v \<noteq> NaN) (map (value_of c) (members k df)) = map (value_of c) (members k df)"
    by (rule filter_not_NaN, rule ballI, erule member_values_not_NaN[OF assms])
  then have "length (filter (\<lambda>v. v \<noteq> NaN) (map (value_of c) (members k df))) = length (members k df)"
    by (simp only: length_map)
  then show ?thesis by (simp only: aggregate.simps)
qed

lemma length_nums_members:
  assumes "record_filter rws = Inr df0" and "add_columns (dtypes_of rws) rs ms df0 = Inr df"
    and "pivot_table df c Mean = Inr pivot"
  shows "length (nums (map (value_of c) (members k df))) = length (members k df)"
proof -
  have "length (map Some (nums (map (value_of c) (members k df)))) =
        length (map number (map (value_of c) (members k df)))"
    using member_values_Num[OF assms, of k] by simp
  then show ?thesis by (simp only: length_map)
qed

lemma unstack_axes_cong:
  assumes "dom (map_of t) = dom (map_of t')"
  shows "index (unstack t) = index (unstack t')" and "columns (unstack t) = columns (unstack t')"
proof -
  have "fst ` set t = dom (map_of t)" "fst ` set t' = dom (map_of t')"
    by (simp_all add: dom_map_of_conv_image_fst)
  with assms have keys: "fst ` set t = fst ` set t'" by simp
  have "set (map (fst \<circ> fst) t) = fst ` (fst ` set t)" "set (map (snd \<circ> fst) t) = snd ` (fst ` set t)"
    "set (map (fst \<circ> fst) t') = fst ` (fst ` set t')" "set (map (snd \<circ> fst) t') = snd ` (fst ` set t')"
    by (simp_all add: image_image)
  with keys have sets: "set (map (fst \<circ> fst) t) = set (map (fst \<circ> fst) t')"
    "set (map (snd \<circ> fst) t) = set (map (snd \<circ> fst) t')" by simp_all
  have "sort (remdups (map (fst \<circ> fst) t)) = sort (remdups (map (fst \<circ> fst) t'))"
    using sets(1) by (simp only: sorted_list_of_set_sort_remdups[symmetric])
  then show "index (unstack t) = index (unstack t')" by (simp add: unstack_def)
  have "sort (remdups (map (snd \<circ> fst) t)) = sort (remdups (map (snd \<circ> fst) t'))"
    using sets(2) by (simp only: sorted_list_of_set_sort_remdups[symmetric])
  then show "columns (unstack t) = columns (unstack t')" by (simp add: unstack_def)
qed

lemma unstack_cong:
  assumes "map_of t = map_of t'"
  shows "unstack t = unstack t'"
proof -
  from assms have "dom (map_of t) = dom (map_of t')" by simp
  from unstack_axes_cong[OF this] assms show ?thesis by (simp add: unstack_def)
qed

text \<open>The bins that hold a value are the bins that have a record, in every grid of the script.\<close>

lemma dom_agged_Count:
  assumes "record_filter rws = Inr df0" and "add_columns (dtypes_of rws) rs ms df0 = Inr df"
  shows "dom (map_of (agged c Count df)) = {k. members k df \<noteq> []}"
proof -
  have "map_of (agged c Count df) k = None \<longleftrightarrow> members k df = []" for k
    by (simp only: map_of_agged count_members[OF assms]) simp
  then show ?thesis by (auto simp: dom_def)
qed

lemma dom_agged_Mean:
  assumes "record_filter rws = Inr df0" and "add_columns (dtypes_of rws) rs ms df0 = Inr df"
    and "pivot_table df c Mean = Inr pivot"
  shows "dom (map_of (agged c Mean df)) = {k. members k df \<noteq> []}"
proof -
  have "map_of (agged c Mean df) k = None \<longleftrightarrow> members k df = []" for k
  proof -
    from length_nums_members[OF assms, of k]
    have "nums (map (value_of c) (members k df)) = [] \<longleftrightarrow> members k df = []" by auto
    then show ?thesis by (simp add: map_of_agged)
  qed
  then show ?thesis by (auto simp: dom_def)
qed

lemma pivot_axes:
  assumes "record_filter rws = Inr df0" and "add_columns (dtypes_of rws) rs ms df0 = Inr df"
    and "pivot_table df c Mean = Inr pivot" and "pivot_table df c' Count = Inr count"
  shows "index pivot = index count" and "columns pivot = columns count"
proof -
  have d: "dom (map_of (agged c Mean df)) = dom (map_of (agged c' Count df))"
    by (simp only: dom_agged_Mean[OF assms(1,2,3)] dom_agged_Count[OF assms(1,2)])
  from assms(3) have p: "pivot = unstack (agged c Mean df)"
    by (simp add: pivot_table_def split: if_splits)
  from assms(4) have c: "count = unstack (agged c' Count df)"
    by (simp add: pivot_table_def split: if_splits)
  from unstack_axes_cong[OF d] p c show "index pivot = index count" "columns pivot = columns count"
    by simp_all
qed

text \<open>The side-by-side branch of lines 143 to 156, taken apart.\<close>

lemma heatmaps_side_by_side:
  assumes "selected_mode cfg = View_SideBySide" and "heatmaps cfg df = Inr out"
  shows "\<exists>ps pl cn. pivot_table df Col_STFT Mean = Inr ps \<and> pivot_table df Col_LTFT Mean = Inr pl
           \<and> pivot_table df Col_STFT Count = Inr cn
           \<and> masks out = [snd (create_trim_heatmap cfg ps cn), snd (create_trim_heatmap cfg pl cn)]
           \<and> count_grid out = cn
           \<and> count_mask out = frame_or (snd (create_trim_heatmap cfg ps cn))
                                          (snd (create_trim_heatmap cfg pl cn))
           \<and> fig_count out = create_count_heatmap cn (count_mask out)"
proof (cases "pivot_table df Col_STFT Mean")
  case (Inl e)
  with assms show ?thesis by (simp add: heatmaps_def)
next
  case ps: (Inr ps)
  show ?thesis
  proof (cases "pivot_table df Col_LTFT Mean")
    case (Inl e)
    with assms ps show ?thesis by (simp add: heatmaps_def)
  next
    case pl: (Inr pl)
    show ?thesis
    proof (cases "pivot_table df Col_STFT Count")
      case (Inl e)
      with assms ps pl show ?thesis by (simp add: heatmaps_def)
    next
      case cn: (Inr cn)
      from assms(2) have "out =
          \<lparr>fig_trims = [fst (create_trim_heatmap cfg ps cn), fst (create_trim_heatmap cfg pl cn)],
           masks = [snd (create_trim_heatmap cfg ps cn), snd (create_trim_heatmap cfg pl cn)],
           count_grid = cn,
           count_mask = frame_or (snd (create_trim_heatmap cfg ps cn))
                                 (snd (create_trim_heatmap cfg pl cn)),
           fig_count = create_count_heatmap cn
                         (frame_or (snd (create_trim_heatmap cfg ps cn))
                                   (snd (create_trim_heatmap cfg pl cn))),
           ts_chart = create_timeseries_chart df\<rparr>"
        unfolding heatmaps_def by (auto simp: assms(1) ps pl cn case_prod_beta Let_def)
      then show ?thesis by (simp add: ps pl cn)
    qed
  qed
qed

lemma heatmaps_side_by_side_count:
  assumes "selected_mode cfg = View_SideBySide" and "heatmaps cfg df = Inr out"
  shows "pivot_table df Col_STFT Count = Inr (count_grid out)"
proof (cases "pivot_table df Col_STFT Mean")
  case (Inl e)
  with assms show ?thesis by (simp add: heatmaps_def)
next
  case ps: (Inr ps)
  show ?thesis
  proof (cases "pivot_table df Col_LTFT Mean")
    case (Inl e)
    with assms ps show ?thesis by (simp add: heatmaps_def)
  next
    case pl: (Inr pl)
    show ?thesis
    proof (cases "pivot_table df Col_STFT Count")
      case (Inl e)
      with assms ps pl show ?thesis by (simp add: heatmaps_def)
    next
      case cn: (Inr cn)
      from assms(2) have "count_grid out = cn"
        unfolding heatmaps_def by (auto simp: assms(1) ps pl cn case_prod_beta Let_def)
      with cn show ?thesis by simp
    qed
  qed
qed

section \<open>Grids of booleans\<close>

lemma set_align: "set (align xs ys) = set xs \<union> set ys"
  by (auto simp: align_def)

lemma frame_at_Some_iff:
  "frame_at f k = Some x \<longleftrightarrow> fst k \<in> set (index f) \<and> snd k \<in> set (columns f) \<and> cell f k = x"
  by (auto simp: frame_at_def)

lemma frame_at_frame_and:
  "frame_at (frame_and a b) k = Some True \<longleftrightarrow> frame_at a k = Some True \<and> frame_at b k = Some True"
  by (auto simp: frame_at_Some_iff frame_and_def set_align)

lemma frame_at_frame_ge:
  "frame_at (frame_ge f c) k = Some True \<longleftrightarrow> (\<exists>v. lookup f k = Some v \<and> c \<le> v)"
  by (auto simp: frame_at_def frame_ge_def lookup_def split: option.splits)

lemma frame_at_frame_le:
  "frame_at (frame_le f c) k = Some True \<longleftrightarrow> (\<exists>v. lookup f k = Some v \<and> v \<le> c)"
  by (auto simp: frame_at_def frame_le_def lookup_def split: option.splits)

lemma snd_create_trim_heatmap:
  "snd (create_trim_heatmap cfg pivot_df count_df) =
     frame_and (frame_and (frame_ge count_df (of_int (min_samples cfg)))
                          (frame_ge pivot_df (of_int (fst (trim_range cfg)))))
               (frame_le pivot_df (of_int (snd (trim_range cfg))))"
  by (simp add: create_trim_heatmap_def case_prod_beta Let_def)

lemma mask_axes:
  "index (snd (create_trim_heatmap cfg pivot_df count_df)) =
     align (align (index count_df) (index pivot_df)) (index pivot_df)"
  "columns (snd (create_trim_heatmap cfg pivot_df count_df)) =
     align (align (columns count_df) (columns pivot_df)) (columns pivot_df)"
  by (simp_all add: snd_create_trim_heatmap frame_and_def frame_ge_def frame_le_def)

lemma frame_or_same_labels:
  assumes "index a = index b" and "columns a = columns b"
  shows "(frame_at (frame_or a b) k = Some True \<longleftrightarrow> frame_at a k = Some True \<or> frame_at b k = Some True)
       \<and> (frame_at (frame_or a b) k = Some False \<longleftrightarrow> frame_at a k = Some False \<and> frame_at b k = Some False)
       \<and> (frame_at (frame_or a b) k = None \<longleftrightarrow> frame_at a k = None \<and> frame_at b k = None)
       \<and> index (frame_or a b) = index a \<and> columns (frame_or a b) = columns a"
  using assms by (auto simp: frame_or_def frame_at_def align_def)

lemma frame_at_bool_cases:
  "frame_at (f :: bool frame) k = Some True \<or> frame_at f k = Some False \<or> frame_at f k = None"
  by (cases "frame_at f k") auto

section \<open>The dictionary of the mapping file\<close>

lemma map_of_dict_set: "map_of (dict_set d k v) = (map_of d)(k \<mapsto> v)"
  by (induction d) (auto simp: fun_eq_iff)

lemma map_of_foldl_dict_set:
  "map_of (foldl (\<lambda>d (k, v). dict_set d k v) d kvs) = map_of d ++ map_of (rev kvs)"
proof (induction kvs arbitrary: d)
  case Nil
  then show ?case by simp
next
  case (Cons p kvs)
  obtain k v where p: "p = (k, v)" by (cases p)
  have "map_of (foldl (\<lambda>d (k, v). dict_set d k v) d (p # kvs)) =
        map_of (dict_set d k v) ++ map_of (rev kvs)"
    by (simp add: p Cons.IH)
  also have "\<dots> = (map_of d)(k \<mapsto> v) ++ map_of (rev kvs)"
    by (simp only: map_of_dict_set)
  also have "\<dots> = map_of d ++ ([k \<mapsto> v] ++ map_of (rev kvs))"
    by (rule ext) (simp add: map_add_def split: option.splits)
  also have "[k \<mapsto> v] ++ map_of (rev kvs) = map_of (rev (p # kvs))"
    by (simp add: p)
  finally show ?case .
qed

lemma dict_get_dict_zip: "dict_get (dict_zip ks vs) k = map_of (rev (zip ks vs)) k"
  by (simp add: dict_get_def dict_zip_def map_of_foldl_dict_set)

lemma map_of_rev_last:
  assumes "i < length kvs" and "\<forall>j. i < j \<longrightarrow> j < length kvs \<longrightarrow> fst (kvs ! j) \<noteq> fst (kvs ! i)"
  shows "map_of (rev kvs) (fst (kvs ! i)) = Some (snd (kvs ! i))"
  using assms
proof (induction kvs arbitrary: i rule: rev_induct)
  case Nil
  then show ?case by simp
next
  case (snoc p kvs)
  show ?case
  proof (cases "i = length kvs")
    case True
    then show ?thesis by (cases p) simp
  next
    case False
    with snoc.prems(1) have i: "i < length kvs" by simp
    from snoc.prems(2)[rule_format, of "length kvs"] i
    have ne: "fst p \<noteq> fst (kvs ! i)" by (simp add: nth_append)
    have "\<forall>j. i < j \<longrightarrow> j < length kvs \<longrightarrow> fst (kvs ! j) \<noteq> fst (kvs ! i)"
    proof (intro allI impI)
      fix j assume j: "i < j" "j < length kvs"
      with snoc.prems(2)[rule_format, of j] i show "fst (kvs ! j) \<noteq> fst (kvs ! i)"
        by (simp add: nth_append)
    qed
    from snoc.IH[OF i this] ne i show ?thesis
      by (cases p) (simp add: nth_append)
  qed
qed

lemma rename_member:
  assumes "dict_get cm a = Some n" and "(a, xs) \<in> set df"
  shows "(n, xs) \<in> set (rename cm df)"
proof -
  from assms(2) have "(\<lambda>(c, xs). (case dict_get cm c of Some n \<Rightarrow> n | None \<Rightarrow> c, xs)) (a, xs) \<in> set (rename cm df)"
    unfolding rename_def set_map by (rule imageI)
  with assms(1) show ?thesis by simp
qed

section \<open>An empty table\<close>








section \<open>Rows without text\<close>

lemma kept_iff_spec:
  assumes "MAP_mbar r = NaN \<or> numeric (MAP_mbar r)" "RPM r = NaN \<or> numeric (RPM r)"
    "STFT r = NaN \<or> numeric (STFT r)" "LTFT r = NaN \<or> numeric (LTFT r)"
  shows "kept r \<longleftrightarrow> \<not> dropped_by_spec r"
  using assms by (auto simp: kept_def dropped_by_spec_def numeric_def positive_def split: cell.splits)

section \<open>The small log, step by step\<close>

lemma ex_record_filter: "record_filter ex_rows = Inr ex_filtered"
  by (simp add: ex_rows_def ex_filtered_def record_filter_def dropna_def boolean_index_def)

lemma ex_dtypes: "dtypes_of ex_rows =
    \<lparr>text_MAP_mbar = False, text_RPM = False, text_STFT = False, text_LTFT = False\<rparr>"
  by (simp add: dtypes_of_def ex_rows_def is_Str_def)

lemma ex_add_columns: "add_columns (dtypes_of ex_rows) 500 50 ex_filtered = Inr ex_binned"
  by (simp add: ex_dtypes ex_filtered_def ex_binned_def add_columns_def add_columns_row_def floordiv_def)

lemma ex_no_Str: "r \<in> set ex_binned \<Longrightarrow> \<not> is_Str (value_of c r)"
  by (cases c) (auto simp: ex_binned_def is_Str_def)

lemma ex_pivot_table: "pivot_table ex_binned c agg = Inr (unstack (agged c agg ex_binned))"
  using ex_no_Str by (auto simp: pivot_table_def)

lemma ex_members: "members (550, 1000) ex_binned = [ex_binned ! 2, ex_binned ! 3]"
  "members (550, 500) ex_binned = []"
  by (simp_all add: members_def ex_binned_def)

lemma ex_members_ne: "members (550, 1000) ex_binned \<noteq> []"
  by (simp add: ex_members)

lemma ex_heatmaps: "\<exists>out. heatmaps ex_cfg ex_binned = Inr out"
  by (simp add: heatmaps_def ex_cfg_def ex_pivot_table case_prod_beta Let_def)

lemma ex_agged:
  "agged Col_STFT Mean ex_binned = [((500, 1000), 2), ((500, 500), 4), ((550, 1000), 9 / 2)]"
  "agged Col_LTFT Mean ex_binned = [((500, 1000), 1), ((500, 500), 1), ((550, 1000), - (1 / 2))]"
  "agged Col_STFT Count ex_binned = [((500, 1000), 1), ((500, 500), 1), ((550, 1000), 2)]"
  by (simp_all add: ex_binned_def agged_def groupby_def group_step_def)

lemma ex_axes:
  "index (unstack (agged Col_STFT Mean ex_binned)) = [500, 550]"
  "columns (unstack (agged Col_STFT Mean ex_binned)) = [500, 1000]"
  "index (unstack (agged Col_LTFT Mean ex_binned)) = [500, 550]"
  "columns (unstack (agged Col_LTFT Mean ex_binned)) = [500, 1000]"
  "index (unstack (agged Col_STFT Count ex_binned)) = [500, 550]"
  "columns (unstack (agged Col_STFT Count ex_binned)) = [500, 1000]"
  by (simp_all add: ex_agged unstack_def)

lemma ex_mask_axes:
  "index (snd (create_trim_heatmap ex_cfg (unstack (agged c Mean ex_binned)) (unstack (agged Col_STFT Count ex_binned)))) =
     align (align [500, 550] (index (unstack (agged c Mean ex_binned)))) (index (unstack (agged c Mean ex_binned)))"
  "columns (snd (create_trim_heatmap ex_cfg (unstack (agged c Mean ex_binned)) (unstack (agged Col_STFT Count ex_binned)))) =
     align (align [500, 1000] (columns (unstack (agged c Mean ex_binned)))) (columns (unstack (agged c Mean ex_binned)))"
  by (simp_all add: snd_create_trim_heatmap frame_and_def frame_ge_def frame_le_def ex_axes)

lemma ex_resolve: "resolve ex_df_map = Inr ex_column_mapping"
  by (simp add: resolve_def ex_df_map_def df_columns_def column_mapping_of_def map_column_def
      dict_zip_def missing_of_def dict_values_def REQUIRED_COLUMNS_def ex_column_mapping_def)


lemma ex_required_rows:
  "required_rows (rename ex_column_mapping ex_df_log) = Inr ex_rows"
  by (simp add: required_rows_def rename_def ex_column_mapping_def ex_df_log_def
      dict_get_def getitem_def make_rows_def ex_rows_def)





lemma ex_columns_no_new: "df_columns ex_df_map_no_new = [''original'', ''target'']"
  by (simp add: df_columns_def ex_df_map_no_new_def)

lemma ex_no_ltft:
  "df_columns ex_df_map_no_ltft = [''original'', ''new'']"
  "filter (\<lambda>col. col \<notin> set (dict_values (column_mapping_of ex_df_map_no_ltft))) REQUIRED_COLUMNS = [''LTFT'']"
  by (simp_all add: df_columns_def ex_df_map_no_ltft_def column_mapping_of_def map_column_def
      dict_zip_def dict_values_def REQUIRED_COLUMNS_def)

lemma ex_cm_dup:
  "column_mapping_of ex_df_map_dup =
     [(''Manifold'', ''MAP_mbar''), (''Engine RPM'', ''RPM''), (''Wheel RPM'', ''RPM''),
      (''ST'', ''STFT''), (''LT'', ''LTFT'')]"
  "column_mapping_of ex_df_map_last =
     [(''Manifold'', ''MAP_mbar''), (''Wheel RPM'', ''RPM''), (''ST'', ''STFT''), (''LT'', ''LTFT'')]"
  by (simp_all add: column_mapping_of_def ex_df_map_dup_def ex_df_map_last_def map_column_def dict_zip_def)

section \<open>Binning\<close>

text \<open>
  Claim C2. Every row that leaves the filter gets the bins \<open>floor(v / size) * size\<close> of its
  RPM and of its MAP. A value on a bin boundary belongs to the bin that starts there:
  the bin of \<open>size\<close> is \<open>size\<close>; a value below the boundary by \<open>e\<close>, for
  \<open>0 < e \<le> size\<close>, belongs to the bin \<open>0\<close>. The bin sizes are positive.
\<close>

theorem binning_floor:
  assumes "record_filter rws = Inr df0" and "add_columns (dtypes_of rws) rs ms df0 = Inr df"
    and "0 < rs" and "0 < ms"
    and "0 < bin_size" and "0 < e" and "e \<le> of_int bin_size"
  shows "(\<forall>r \<in> set df. \<exists>v w. number (RPM r) = Some v \<and> number (MAP_mbar r) = Some w
            \<and> RPM_bin r = Some (of_int \<lfloor>v / of_int rs\<rfloor> * of_int rs)
            \<and> MAP_bin r = Some (of_int \<lfloor>w / of_int ms\<rfloor> * of_int ms))
       \<and> bin_cell (Num (of_int bin_size)) bin_size = Inr (Some (of_int bin_size))
       \<and> bin_cell (Num (of_int bin_size - e)) bin_size = Inr (Some 0)"
proof (intro conjI ballI)
  fix r assume "r \<in> set df"
  from binned_row_facts[OF assms(1,2) this]
  have f: "positive (RPM r)" "positive (MAP_mbar r)"
    "bin_cell (RPM r) rs = Inr (RPM_bin r)" "bin_cell (MAP_mbar r) ms = Inr (MAP_bin r)"
    by simp_all
  from bin_cell_positive[OF f(1) assms(3)] f(3)
  obtain v where v: "number (RPM r) = Some v"
    "RPM_bin r = Some (of_int \<lfloor>v / of_int rs\<rfloor> * of_int rs)" by auto
  from bin_cell_positive[OF f(2) assms(4)] f(4)
  obtain w where w: "number (MAP_mbar r) = Some w"
    "MAP_bin r = Some (of_int \<lfloor>w / of_int ms\<rfloor> * of_int ms)" by auto
  from v w
  show "\<exists>v w. number (RPM r) = Some v \<and> number (MAP_mbar r) = Some w
            \<and> RPM_bin r = Some (of_int \<lfloor>v / of_int rs\<rfloor> * of_int rs)
            \<and> MAP_bin r = Some (of_int \<lfloor>w / of_int ms\<rfloor> * of_int ms)"
    by blast
next
  from assms(5) show "bin_cell (Num (of_int bin_size)) bin_size = Inr (Some (of_int bin_size))"
    by (simp add: floordiv_def)
next
  let ?s = "real_of_int bin_size"
  from assms have s: "0 < ?s" by simp
  have "0 \<le> (?s - e) / ?s" using assms s by simp
  moreover have "(?s - e) / ?s < 1" using assms s by simp
  ultimately have "\<lfloor>(?s - e) / ?s\<rfloor> = 0" by linarith
  then show "bin_cell (Num (?s - e)) bin_size = Inr (Some 0)"
    by (simp add: floordiv_def)
qed

theorem binning_floor_witness:
  "record_filter ex_rows = Inr ex_filtered
   \<and> add_columns (dtypes_of ex_rows) 500 50 ex_filtered = Inr ex_binned
   \<and> (0 :: int) < 500 \<and> (0 :: int) < 50 \<and> (0 :: real) < 1 / 2 \<and> (1 / 2 :: real) \<le> of_int 500
   \<and> (\<exists>v w. number (RPM (ex_binned ! 1)) = Some v \<and> number (MAP_mbar (ex_binned ! 1)) = Some w
            \<and> RPM_bin (ex_binned ! 1) = Some (of_int \<lfloor>v / of_int 500\<rfloor> * of_int 500)
            \<and> MAP_bin (ex_binned ! 1) = Some (of_int \<lfloor>w / of_int 50\<rfloor> * of_int 50))
   \<and> bin_cell (Num (of_int 500)) 500 = Inr (Some (of_int 500))
   \<and> bin_cell (Num (of_int 500 - 1 / 2)) 500 = Inr (Some 0)"
proof -
  have h: "(0 :: int) < 500" "(0 :: int) < 50" "(0 :: int) < 500"
    "(0 :: real) < 1 / 2" "(1 / 2 :: real) \<le> of_int 500" by simp_all
  have m: "ex_binned ! 1 \<in> set ex_binned" by (simp add: ex_binned_def)
  from binning_floor[OF ex_record_filter ex_add_columns h] m ex_record_filter ex_add_columns h
  show ?thesis by blast
qed

section \<open>Cells of a grid\<close>

text \<open>
  Claim C3, as the script has it. For the rows that leave the filter, for each of the
  three signals and each bin that has a record: the cells of the signal's column over the
  records of the bin are numbers, the grid of means holds their arithmetic mean at the
  bin, and the grid of counts holds the number of records of the bin. The column is
  \<open>STFT\<close>, \<open>LTFT\<close> or \<open>TotalTrim\<close>, as the signal says. \<open>TotalTrim\<close> of a record is the
  sum of its STFT and LTFT in the type of the two cells: two integers add in 64 bits and
  wrap around, any other two numbers add exactly; in both cases it is the exact sum when
  that lies within 64 bits. Floats are exact reals, so the mean is exact.
\<close>

theorem cell_mean_count:
  assumes "record_filter rws = Inr df0" and "add_columns (dtypes_of rws) rs ms df0 = Inr df"
    and "pivot_table df c Mean = Inr pivot" and "pivot_table df c Count = Inr count"
    and "members k df \<noteq> []"
  shows "(\<exists>xs. map (\<lambda>r. number (case c of Col_STFT \<Rightarrow> STFT r | Col_LTFT \<Rightarrow> LTFT r
                                     | Col_TotalTrim \<Rightarrow> TotalTrim r))
               (members k df) = map Some xs
            \<and> lookup pivot k = Some (sum_list xs / of_nat (length xs)))
       \<and> lookup count k = Some (of_nat (length (members k df)))
       \<and> (\<forall>r \<in> set df.
            (\<forall>i j. STFT r = I64 i \<longrightarrow> LTFT r = I64 j \<longrightarrow> TotalTrim r = I64 (i + j))
          \<and> (\<forall>s l. number (STFT r) = Some s \<longrightarrow> number (LTFT r) = Some l \<longrightarrow>
                (\<nexists>i j. STFT r = I64 i \<and> LTFT r = I64 j) \<longrightarrow> TotalTrim r = Num (s + l))
          \<and> (\<forall>s l. number (STFT r) = Some s \<longrightarrow> number (LTFT r) = Some l \<longrightarrow>
                - (2 ^ 63) \<le> s + l \<longrightarrow> s + l < 2 ^ 63 \<longrightarrow> number (TotalTrim r) = Some (s + l)))"
proof (intro conjI ballI)
  let ?vs = "map (value_of c) (members k df)"
  have col: "map (\<lambda>r. number (case c of Col_STFT \<Rightarrow> STFT r | Col_LTFT \<Rightarrow> LTFT r
                                     | Col_TotalTrim \<Rightarrow> TotalTrim r)) (members k df) =
             map number ?vs"
    by (cases c) simp_all
  note vs = member_values_Num[OF assms(1,2,3), of k]
  from length_nums_members[OF assms(1,2,3), of k] assms(5) have ne: "nums ?vs \<noteq> []" by auto
  have "lookup pivot k = Some (sum_list (nums ?vs) / of_nat (length (nums ?vs)))"
    using assms(5) ne by (simp only: lookup_pivot_table[OF assms(3)] aggregate.simps if_False)
  with vs col
  show "\<exists>xs. map (\<lambda>r. number (case c of Col_STFT \<Rightarrow> STFT r | Col_LTFT \<Rightarrow> LTFT r
                                     | Col_TotalTrim \<Rightarrow> TotalTrim r))
               (members k df) = map Some xs
            \<and> lookup pivot k = Some (sum_list xs / of_nat (length xs))"
    by (intro exI[of _ "nums ?vs"]) simp
next
  show "lookup count k = Some (of_nat (length (members k df)))"
    using assms(5) by (simp only: lookup_pivot_table[OF assms(4)] count_members[OF assms(1,2)] if_False)
next
  fix r assume r: "r \<in> set df"
  from binned_row_facts[OF assms(1,2) r] have t: "add_cell (STFT r) (LTFT r) = Inr (TotalTrim r)"
    by blast
  show "\<forall>i j. STFT r = I64 i \<longrightarrow> LTFT r = I64 j \<longrightarrow> TotalTrim r = I64 (i + j)"
    using t by auto
next
  fix r assume r: "r \<in> set df"
  from binned_row_facts[OF assms(1,2) r] have t: "add_cell (STFT r) (LTFT r) = Inr (TotalTrim r)"
    by blast
  show "\<forall>s l. number (STFT r) = Some s \<longrightarrow> number (LTFT r) = Some l \<longrightarrow>
                (\<nexists>i j. STFT r = I64 i \<and> LTFT r = I64 j) \<longrightarrow> TotalTrim r = Num (s + l)"
    using t by (cases "STFT r"; cases "LTFT r") (auto simp del: of_int_sint)
next
  fix r assume r: "r \<in> set df"
  from binned_row_facts[OF assms(1,2) r] have t: "add_cell (STFT r) (LTFT r) = Inr (TotalTrim r)"
    by blast
  show "\<forall>s l. number (STFT r) = Some s \<longrightarrow> number (LTFT r) = Some l \<longrightarrow>
                - (2 ^ 63) \<le> s + l \<longrightarrow> s + l < 2 ^ 63 \<longrightarrow> number (TotalTrim r) = Some (s + l)"
  proof (intro allI impI)
    fix s l :: real
    assume sl: "number (STFT r) = Some s" "number (LTFT r) = Some l"
      and range: "- (2 ^ 63) \<le> s + l" "s + l < 2 ^ 63"
    show "number (TotalTrim r) = Some (s + l)"
    proof (cases "\<exists>i j. STFT r = I64 i \<and> LTFT r = I64 j")
      case True
      then obtain i j where ij: "STFT r = I64 i" "LTFT r = I64 j" by blast
      with sl have s: "s = of_int (sint i)" and l: "l = of_int (sint j)"
        by (simp_all del: of_int_sint)
      from range have "real_of_int (- (2 ^ 63)) \<le> real_of_int (sint i + sint j)"
        "real_of_int (sint i + sint j) < real_of_int (2 ^ 63)"
        unfolding s l by simp_all
      then have "- (2 ^ 63) \<le> sint i + sint j" "sint i + sint j < 2 ^ 63"
        by (simp_all only: of_int_le_iff of_int_less_iff)
      then have w: "sint (i + j) = sint i + sint j"
        by (simp add: sint_word_ariths signed_take_bit_int_eq_self)
      from t ij have "TotalTrim r = I64 (i + j)" by simp
      then show ?thesis by (simp add: s l w del: of_int_sint)
    next
      case False
      with t sl have "TotalTrim r = Num (s + l)"
        by (cases "STFT r"; cases "LTFT r") (auto simp del: of_int_sint)
      then show ?thesis by simp
    qed
  qed
qed

lemma ex_members_values:
  "map STFT (members (550, 1000) ex_binned) = [I64 3, I64 6]"
  "map LTFT (members (550, 1000) ex_binned) = [I64 (- 1), I64 0]"
  "map TotalTrim (members (550, 1000) ex_binned) = [I64 2, I64 6]"
  by (simp_all add: ex_members) (simp_all add: ex_binned_def)

theorem cell_mean_count_witness:
  "record_filter ex_rows = Inr ex_filtered
   \<and> add_columns (dtypes_of ex_rows) 500 50 ex_filtered = Inr ex_binned
   \<and> pivot_table ex_binned Col_STFT Mean = Inr (unstack (agged Col_STFT Mean ex_binned))
   \<and> pivot_table ex_binned Col_LTFT Mean = Inr (unstack (agged Col_LTFT Mean ex_binned))
   \<and> pivot_table ex_binned Col_TotalTrim Mean = Inr (unstack (agged Col_TotalTrim Mean ex_binned))
   \<and> pivot_table ex_binned Col_TotalTrim Count = Inr (unstack (agged Col_TotalTrim Count ex_binned))
   \<and> members (550, 1000) ex_binned \<noteq> []
   \<and> lookup (unstack (agged Col_STFT Mean ex_binned)) (550, 1000) = Some (9 / 2)
   \<and> lookup (unstack (agged Col_LTFT Mean ex_binned)) (550, 1000) = Some (- 1 / 2)
   \<and> lookup (unstack (agged Col_TotalTrim Mean ex_binned)) (550, 1000) = Some 4
   \<and> lookup (unstack (agged Col_TotalTrim Count ex_binned)) (550, 1000) = Some 2
   \<and> TotalTrim (ex_binned ! 0) = I64 (2 + 1)"
proof -
  note t = cell_mean_count[OF ex_record_filter ex_add_columns ex_pivot_table ex_pivot_table ex_members_ne]
  from t[of Col_STFT] obtain xs where xs:
    "map (\<lambda>r. number (STFT r)) (members (550, 1000) ex_binned) = map Some xs"
    "lookup (unstack (agged Col_STFT Mean ex_binned)) (550, 1000) = Some (sum_list xs / of_nat (length xs))"
    by auto
  from xs(1) ex_members_values(1) have "map Some xs = [Some 3, Some 6]"
    by (simp add: map_eq_Cons_conv flip: map_map[unfolded comp_def]) 
  then have "xs = [3, 6]" by (auto simp: map_eq_Cons_conv)
  with xs(2) have a: "lookup (unstack (agged Col_STFT Mean ex_binned)) (550, 1000) = Some (9 / 2)"
    by simp
  from t[of Col_LTFT] obtain ys where ys:
    "map (\<lambda>r. number (LTFT r)) (members (550, 1000) ex_binned) = map Some ys"
    "lookup (unstack (agged Col_LTFT Mean ex_binned)) (550, 1000) = Some (sum_list ys / of_nat (length ys))"
    by auto
  from ys(1) ex_members_values(2) have "map Some ys = [Some (- 1), Some 0]"
    by (simp add: map_eq_Cons_conv flip: map_map[unfolded comp_def])
  then have "ys = [- 1, 0]" by (auto simp: map_eq_Cons_conv)
  with ys(2) have b: "lookup (unstack (agged Col_LTFT Mean ex_binned)) (550, 1000) = Some (- 1 / 2)"
    by simp
  from t[of Col_TotalTrim] obtain zs where zs:
    "map (\<lambda>r. number (TotalTrim r)) (members (550, 1000) ex_binned) = map Some zs"
    "lookup (unstack (agged Col_TotalTrim Mean ex_binned)) (550, 1000) = Some (sum_list zs / of_nat (length zs))"
    by auto
  from zs(1) ex_members_values(3) have "map Some zs = [Some 2, Some 6]"
    by (simp add: map_eq_Cons_conv flip: map_map[unfolded comp_def])
  then have "zs = [2, 6]" by (auto simp: map_eq_Cons_conv)
  with zs(2) have c: "lookup (unstack (agged Col_TotalTrim Mean ex_binned)) (550, 1000) = Some 4"
    by simp
  from t[of Col_TotalTrim] have count: "lookup (unstack (agged Col_TotalTrim Count ex_binned)) (550, 1000) = Some 2"
    by (simp add: ex_members)
  have "ex_binned ! 0 \<in> set ex_binned" "STFT (ex_binned ! 0) = I64 2" "LTFT (ex_binned ! 0) = I64 1"
    by (simp_all add: ex_binned_def)
  with t[of Col_STFT] have tt: "TotalTrim (ex_binned ! 0) = I64 (2 + 1)" by blast
  from ex_record_filter ex_add_columns ex_pivot_table ex_members_ne a b c count tt
  show ?thesis by blast
qed

text \<open>
  The claim C3 as stated fails where the sum of two integer trims does not fit in 64
  bits: \<open>TotalTrim\<close> of the record is not its STFT plus its LTFT, and the mean of its bin
  is not the mean of these sums.
\<close>

theorem total_trim_counterexample:
  "record_filter ex_rows_wrap = Inr ex_rows_wrap
   \<and> add_columns (dtypes_of ex_rows_wrap) 500 50 ex_rows_wrap = Inr ex_binned_wrap
   \<and> map (\<lambda>r. number (STFT r)) ex_binned_wrap = [Some 9223372036854775807]
   \<and> map (\<lambda>r. number (LTFT r)) ex_binned_wrap = [Some 1]
   \<and> map (\<lambda>r. number (TotalTrim r)) ex_binned_wrap = [Some (- 9223372036854775808)]
   \<and> members (500, 1000) ex_binned_wrap = ex_binned_wrap
   \<and> (\<exists>pivot. pivot_table ex_binned_wrap Col_TotalTrim Mean = Inr pivot
         \<and> lookup pivot (500, 1000) = Some (- 9223372036854775808))
   \<and> (9223372036854775807 + 1 :: real) / 1 \<noteq> - 9223372036854775808"
proof -
  have f: "record_filter ex_rows_wrap = Inr ex_rows_wrap"
    by (simp add: ex_rows_wrap_def record_filter_def dropna_def boolean_index_def)
  have d: "dtypes_of ex_rows_wrap =
      \<lparr>text_MAP_mbar = False, text_RPM = False, text_STFT = False, text_LTFT = False\<rparr>"
    by (simp add: dtypes_of_def ex_rows_wrap_def is_Str_def)
  have a: "add_columns (dtypes_of ex_rows_wrap) 500 50 ex_rows_wrap = Inr ex_binned_wrap"
    unfolding d
    by (simp add: ex_rows_wrap_def ex_binned_wrap_def add_columns_def add_columns_row_def floordiv_def)
  have n: "map (\<lambda>r. number (STFT r)) ex_binned_wrap = [Some 9223372036854775807]"
    "map (\<lambda>r. number (LTFT r)) ex_binned_wrap = [Some 1]"
    "map (\<lambda>r. number (TotalTrim r)) ex_binned_wrap = [Some (- 9223372036854775808)]"
    by (simp_all add: ex_binned_wrap_def)
  have m: "members (500, 1000) ex_binned_wrap = ex_binned_wrap"
    by (simp add: members_def ex_binned_wrap_def)
  have g: "agged Col_TotalTrim Mean ex_binned_wrap = [((500, 1000), - 9223372036854775808)]"
    by (simp add: ex_binned_wrap_def agged_def groupby_def group_step_def)
  have p: "pivot_table ex_binned_wrap Col_TotalTrim Mean = Inr (unstack (agged Col_TotalTrim Mean ex_binned_wrap))"
    by (simp add: pivot_table_def) (simp add: ex_binned_wrap_def is_Str_def)
  have l: "lookup (unstack (agged Col_TotalTrim Mean ex_binned_wrap)) (500, 1000) = Some (- 9223372036854775808)"
    by (simp add: lookup_unstack g)
  from f a n m p l show ?thesis by simp
qed

text \<open>
  Claim C8. In the grids made from the rows that leave the filter, a bin holds a mean
  exactly when it has a record, and holds a count exactly when it has a record; the
  count it holds is the number of its records and is at least 1. No bin holds the
  count 0: a bin without records holds nothing.
\<close>

theorem no_empty_cell:
  assumes "record_filter rws = Inr df0" and "add_columns (dtypes_of rws) rs ms df0 = Inr df"
    and "pivot_table df c Mean = Inr pivot" and "pivot_table df c Count = Inr count"
  shows "(lookup pivot k = None \<longleftrightarrow> members k df = [])
       \<and> (lookup count k = None \<longleftrightarrow> members k df = [])
       \<and> (\<forall>n. lookup count k = Some n \<longrightarrow> n = of_nat (length (members k df)) \<and> 1 \<le> n)
       \<and> frame_at count k \<noteq> Some (Some 0)"
proof -
  let ?vs = "map (value_of c) (members k df)"
  have c: "lookup count k = (if members k df = [] then None else Some (of_nat (length (members k df))))"
    by (simp only: lookup_pivot_table[OF assms(4)] count_members[OF assms(1,2)])
  from length_nums_members[OF assms(1,2,3), of k]
  have ne: "nums ?vs = [] \<longleftrightarrow> members k df = []" by auto
  have "lookup pivot k = (if members k df = [] then None
           else if nums ?vs = [] then None else Some (sum_list (nums ?vs) / of_nat (length (nums ?vs))))"
    by (simp only: lookup_pivot_table[OF assms(3)] aggregate.simps)
  with ne have p: "lookup pivot k = None \<longleftrightarrow> members k df = []"
    by (simp split: if_splits)
  have one: "(1 :: real) \<le> of_nat (length (members k df))" if "members k df \<noteq> []"
    using that by (cases "members k df") simp_all
  have z: "frame_at count k \<noteq> Some (Some 0)"
  proof
    assume "frame_at count k = Some (Some 0)"
    then have "lookup count k = Some 0" by (simp add: lookup_def)
    with c one show False by (cases "members k df = []") simp_all
  qed
  have n: "\<forall>n. lookup count k = Some n \<longrightarrow> n = of_nat (length (members k df)) \<and> 1 \<le> n"
    using c one by (cases "members k df = []") simp_all
  have c': "lookup count k = None \<longleftrightarrow> members k df = []"
    using c by (cases "members k df = []") simp_all
  from p c' n z show ?thesis by blast
qed

theorem no_empty_cell_witness:
  "record_filter ex_rows = Inr ex_filtered \<and> add_columns (dtypes_of ex_rows) 500 50 ex_filtered = Inr ex_binned
   \<and> pivot_table ex_binned Col_STFT Mean = Inr (unstack (agged Col_STFT Mean ex_binned))
   \<and> pivot_table ex_binned Col_STFT Count = Inr (unstack (agged Col_STFT Count ex_binned))
   \<and> lookup (unstack (agged Col_STFT Count ex_binned)) (550, 1000) = Some 2
   \<and> lookup (unstack (agged Col_STFT Count ex_binned)) (550, 500) = None
   \<and> lookup (unstack (agged Col_STFT Mean ex_binned)) (550, 500) = None
   \<and> frame_at (unstack (agged Col_STFT Count ex_binned)) (550, 500) = Some None
   \<and> frame_at (unstack (agged Col_STFT Count ex_binned)) (550, 1000) \<noteq> Some (Some 0)"
proof -
  note t = no_empty_cell[OF ex_record_filter ex_add_columns ex_pivot_table ex_pivot_table, of Col_STFT]
  from t[of "(550, 1000)"] have ne: "lookup (unstack (agged Col_STFT Count ex_binned)) (550, 1000) \<noteq> None"
    by (simp add: ex_members)
  with t[of "(550, 1000)"] have a: "lookup (unstack (agged Col_STFT Count ex_binned)) (550, 1000) = Some 2"
    by (auto simp: ex_members)
  from t[of "(550, 500)"] have b: "lookup (unstack (agged Col_STFT Count ex_binned)) (550, 500) = None"
    "lookup (unstack (agged Col_STFT Mean ex_binned)) (550, 500) = None"
    by (simp_all add: ex_members)
  have c: "frame_at (unstack (agged Col_STFT Count ex_binned)) (550, 500) = Some None"
    by (simp add: frame_at_def unstack_def agged_def groupby_def group_step_def ex_binned_def)
  from t[of "(550, 1000)"] have d: "frame_at (unstack (agged Col_STFT Count ex_binned)) (550, 1000) \<noteq> Some (Some 0)"
    by blast
  from ex_record_filter ex_add_columns ex_pivot_table a b c d show ?thesis by blast
qed

text \<open>
  Claim C10. For the rows that leave the filter, the grid of counts made from the STFT
  column is the grid of counts made from the LTFT column; the side-by-side view makes its
  one grid of counts from STFT, so it is the LTFT grid of counts as well. The reason is
  that the filter leaves no empty STFT or LTFT cell.
\<close>

theorem count_stft_eq_ltft:
  assumes "record_filter rws = Inr df0" and "add_columns (dtypes_of rws) rs ms df0 = Inr df"
  shows "pivot_table df Col_STFT Count = pivot_table df Col_LTFT Count
       \<and> (\<forall>out. selected_mode cfg = View_SideBySide \<longrightarrow> heatmaps cfg df = Inr out \<longrightarrow>
             Inr (count_grid out) = pivot_table df Col_LTFT Count)"
proof -
  have "map_of (agged Col_STFT Count df) k = map_of (agged Col_LTFT Count df) k" for k
    by (simp only: map_of_agged count_members[OF assms])
  then have "map_of (agged Col_STFT Count df) = map_of (agged Col_LTFT Count df)"
    by (rule ext)
  then have "unstack (agged Col_STFT Count df) = unstack (agged Col_LTFT Count df)"
    by (rule unstack_cong)
  then have eq: "pivot_table df Col_STFT Count = pivot_table df Col_LTFT Count"
    by (simp add: pivot_table_def)
  have "Inr (count_grid out) = pivot_table df Col_LTFT Count"
    if "selected_mode cfg = View_SideBySide" "heatmaps cfg df = Inr out" for out
    using heatmaps_side_by_side_count[OF that] eq by simp
  with eq show ?thesis by blast
qed

theorem count_stft_eq_ltft_witness:
  "record_filter ex_rows = Inr ex_filtered \<and> add_columns (dtypes_of ex_rows) 500 50 ex_filtered = Inr ex_binned
   \<and> pivot_table ex_binned Col_STFT Count = pivot_table ex_binned Col_LTFT Count
   \<and> selected_mode ex_cfg = View_SideBySide
   \<and> (\<exists>out. heatmaps ex_cfg ex_binned = Inr out
          \<and> Inr (count_grid out) = pivot_table ex_binned Col_LTFT Count)"
proof -
  note t = count_stft_eq_ltft[OF ex_record_filter ex_add_columns, of ex_cfg]
  have m: "selected_mode ex_cfg = View_SideBySide" by (simp add: ex_cfg_def)
  from ex_heatmaps obtain out where out: "heatmaps ex_cfg ex_binned = Inr out" ..
  with t m have "Inr (count_grid out) = pivot_table ex_binned Col_LTFT Count" by blast
  with out t m ex_record_filter ex_add_columns show ?thesis by blast
qed

section \<open>Masks\<close>

text \<open>
  Claim C1. The mask that \<^verbatim>\<open>create_trim_heatmap\<close> builds from a grid of values and a grid
  of counts is true at a bin exactly when the grid of values holds a mean there, the grid
  of counts holds a count there that is at least \<open>min_samples\<close>, and the mean lies between
  the two ends of \<open>trim_range\<close>, ends included. At a bin where the grid of values holds
  nothing the mask is false when the bin is among the labels of the mask, and has no
  entry otherwise; building the mask has no failing case.
\<close>

theorem validity_mask_iff:
  "(frame_at (snd (create_trim_heatmap cfg pivot_df count_df)) k = Some True \<longleftrightarrow>
      (\<exists>mean n. lookup pivot_df k = Some mean \<and> lookup count_df k = Some n
         \<and> of_int (min_samples cfg) \<le> n
         \<and> of_int (fst (trim_range cfg)) \<le> mean \<and> mean \<le> of_int (snd (trim_range cfg))))
   \<and> (lookup pivot_df k = None \<longrightarrow>
        frame_at (snd (create_trim_heatmap cfg pivot_df count_df)) k =
          (if fst k \<in> set (index (snd (create_trim_heatmap cfg pivot_df count_df)))
              \<and> snd k \<in> set (columns (snd (create_trim_heatmap cfg pivot_df count_df)))
           then Some False else None))"
proof -
  let ?m = "snd (create_trim_heatmap cfg pivot_df count_df)"
  have iff: "frame_at ?m k = Some True \<longleftrightarrow>
      (\<exists>mean n. lookup pivot_df k = Some mean \<and> lookup count_df k = Some n
         \<and> of_int (min_samples cfg) \<le> n
         \<and> of_int (fst (trim_range cfg)) \<le> mean \<and> mean \<le> of_int (snd (trim_range cfg)))"
    unfolding snd_create_trim_heatmap frame_at_frame_and frame_at_frame_ge frame_at_frame_le
    by auto
  have "frame_at ?m k = (if fst k \<in> set (index ?m) \<and> snd k \<in> set (columns ?m) then Some False else None)"
    if "lookup pivot_df k = None"
  proof -
    from that iff have "frame_at ?m k \<noteq> Some True" by simp
    then show ?thesis by (auto simp: frame_at_def)
  qed
  with iff show ?thesis by blast
qed

theorem validity_mask_iff_witness:
  "frame_at (snd (create_trim_heatmap ex_cfg (unstack (agged Col_STFT Mean ex_binned))
                   (unstack (agged Col_STFT Count ex_binned)))) (500, 500) = Some True
   \<and> lookup (unstack (agged Col_STFT Mean ex_binned)) (500, 500) = Some 4
   \<and> lookup (unstack (agged Col_STFT Count ex_binned)) (500, 500) = Some 1
   \<and> lookup (unstack (agged Col_STFT Mean ex_binned)) (550, 500) = None
   \<and> frame_at (snd (create_trim_heatmap ex_cfg (unstack (agged Col_STFT Mean ex_binned))
                   (unstack (agged Col_STFT Count ex_binned)))) (550, 500) = Some False
   \<and> lookup (unstack (agged Col_STFT Mean ex_binned)) (500, 1500) = None
   \<and> frame_at (snd (create_trim_heatmap ex_cfg (unstack (agged Col_STFT Mean ex_binned))
                   (unstack (agged Col_STFT Count ex_binned)))) (500, 1500) = None"
proof -
  let ?p = "unstack (agged Col_STFT Mean ex_binned)"
  let ?c = "unstack (agged Col_STFT Count ex_binned)"
  note t = validity_mask_iff[of ex_cfg ?p ?c]
  have l: "lookup ?p (500, 500) = Some 4" "lookup ?c (500, 500) = Some 1"
    "lookup ?p (550, 500) = None" "lookup ?p (500, 1500) = None"
    by (simp_all add: lookup_unstack ex_agged)
  have cfg: "min_samples ex_cfg = 1" "trim_range ex_cfg = (-1, 4)" by (simp_all add: ex_cfg_def)
  from t[of "(500, 500)"] l cfg have a: "frame_at (snd (create_trim_heatmap ex_cfg ?p ?c)) (500, 500) = Some True"
    by simp
  from t[of "(550, 500)"] l have b: "frame_at (snd (create_trim_heatmap ex_cfg ?p ?c)) (550, 500) = Some False"
    by (simp add: ex_mask_axes ex_axes align_def)
  from t[of "(500, 1500)"] l have c: "frame_at (snd (create_trim_heatmap ex_cfg ?p ?c)) (500, 1500) = None"
    by (simp add: ex_mask_axes ex_axes align_def)
  from a b c l show ?thesis by blast
qed

text \<open>
  Claim C5. For two masks on the same labels, \<^verbatim>\<open>a | b\<close> is on these labels too, and at
  every bin it is true exactly when one of the two is true, false exactly when both are
  false, and without entry exactly where they are. The side-by-side view builds the mask
  of STFT and the mask of LTFT from the one grid of counts; for the rows that leave the
  filter the two are on the same labels, and the combined mask of the view, under which
  the counts are shown, is their \<^verbatim>\<open>|\<close>: true at a bin exactly when the mask of STFT or the
  mask of LTFT is true there.
\<close>

theorem combined_mask_or:
  assumes "record_filter rws = Inr df0" and "add_columns (dtypes_of rws) rs ms df0 = Inr df"
    and "selected_mode cfg = View_SideBySide" and "heatmaps cfg df = Inr out"
  shows "(\<exists>pivot_stft pivot_ltft count mask_stft mask_ltft.
            pivot_table df Col_STFT Mean = Inr pivot_stft
          \<and> pivot_table df Col_LTFT Mean = Inr pivot_ltft
          \<and> pivot_table df Col_STFT Count = Inr count
          \<and> mask_stft = snd (create_trim_heatmap cfg pivot_stft count)
          \<and> mask_ltft = snd (create_trim_heatmap cfg pivot_ltft count)
          \<and> masks out = [mask_stft, mask_ltft]
          \<and> index mask_stft = index mask_ltft \<and> columns mask_stft = columns mask_ltft
          \<and> index (count_mask out) = index mask_stft
          \<and> columns (count_mask out) = columns mask_stft
          \<and> (\<forall>k. frame_at (count_mask out) k = Some True \<longleftrightarrow>
                 frame_at mask_stft k = Some True \<or> frame_at mask_ltft k = Some True)
          \<and> (\<forall>k. frame_at (count_mask out) k = Some False \<longleftrightarrow>
                 frame_at mask_stft k = Some False \<and> frame_at mask_ltft k = Some False)
          \<and> (\<forall>k. frame_at (count_mask out) k = None \<longleftrightarrow>
                 frame_at mask_stft k = None \<and> frame_at mask_ltft k = None)
          \<and> fig_count out = create_count_heatmap count (count_mask out))
       \<and> (\<forall>a b :: bool frame. index a = index b \<longrightarrow> columns a = columns b \<longrightarrow>
            index (frame_or a b) = index a \<and> columns (frame_or a b) = columns a
          \<and> (\<forall>k. (frame_at (frame_or a b) k = Some True \<longleftrightarrow>
                    frame_at a k = Some True \<or> frame_at b k = Some True)
                \<and> (frame_at (frame_or a b) k = Some False \<longleftrightarrow>
                    frame_at a k = Some False \<and> frame_at b k = Some False)
                \<and> (frame_at (frame_or a b) k = None \<longleftrightarrow>
                    frame_at a k = None \<and> frame_at b k = None)))"
proof (rule conjI)
  from heatmaps_side_by_side[OF assms(3,4)] obtain ps pl cn where
    ps: "pivot_table df Col_STFT Mean = Inr ps" and pl: "pivot_table df Col_LTFT Mean = Inr pl"
    and cn: "pivot_table df Col_STFT Count = Inr cn"
    and m: "masks out = [snd (create_trim_heatmap cfg ps cn), snd (create_trim_heatmap cfg pl cn)]"
    and cm: "count_mask out = frame_or (snd (create_trim_heatmap cfg ps cn))
                                         (snd (create_trim_heatmap cfg pl cn))"
    and fc: "fig_count out = create_count_heatmap cn (count_mask out)"
    by blast
  let ?a = "snd (create_trim_heatmap cfg ps cn)"
  let ?b = "snd (create_trim_heatmap cfg pl cn)"
  note s = pivot_axes[OF assms(1,2) ps cn]
  note l = pivot_axes[OF assms(1,2) pl cn]
  have ia: "index ?a = index cn" "columns ?a = columns cn"
    by (simp_all add: mask_axes s align_def)
  have ib: "index ?b = index cn" "columns ?b = columns cn"
    by (simp_all add: mask_axes l align_def)
  from ia ib have ax: "index ?a = index ?b" "columns ?a = columns ?b" by simp_all
  note o = frame_or_same_labels[OF ax]
  have "index (count_mask out) = index ?a" "columns (count_mask out) = columns ?a"
    "\<forall>k. frame_at (count_mask out) k = Some True \<longleftrightarrow>
         frame_at ?a k = Some True \<or> frame_at ?b k = Some True"
    "\<forall>k. frame_at (count_mask out) k = Some False \<longleftrightarrow>
         frame_at ?a k = Some False \<and> frame_at ?b k = Some False"
    "\<forall>k. frame_at (count_mask out) k = None \<longleftrightarrow>
         frame_at ?a k = None \<and> frame_at ?b k = None"
    unfolding cm using o by blast+
  with ps pl cn m ax fc
  show "\<exists>pivot_stft pivot_ltft count mask_stft mask_ltft.
            pivot_table df Col_STFT Mean = Inr pivot_stft
          \<and> pivot_table df Col_LTFT Mean = Inr pivot_ltft
          \<and> pivot_table df Col_STFT Count = Inr count
          \<and> mask_stft = snd (create_trim_heatmap cfg pivot_stft count)
          \<and> mask_ltft = snd (create_trim_heatmap cfg pivot_ltft count)
          \<and> masks out = [mask_stft, mask_ltft]
          \<and> index mask_stft = index mask_ltft \<and> columns mask_stft = columns mask_ltft
          \<and> index (count_mask out) = index mask_stft
          \<and> columns (count_mask out) = columns mask_stft
          \<and> (\<forall>k. frame_at (count_mask out) k = Some True \<longleftrightarrow>
                 frame_at mask_stft k = Some True \<or> frame_at mask_ltft k = Some True)
          \<and> (\<forall>k. frame_at (count_mask out) k = Some False \<longleftrightarrow>
                 frame_at mask_stft k = Some False \<and> frame_at mask_ltft k = Some False)
          \<and> (\<forall>k. frame_at (count_mask out) k = None \<longleftrightarrow>
                 frame_at mask_stft k = None \<and> frame_at mask_ltft k = None)
          \<and> fig_count out = create_count_heatmap count (count_mask out)"
    by (intro exI[of _ ps] exI[of _ pl] exI[of _ cn] exI[of _ ?a] exI[of _ ?b]) simp
next
  show "\<forall>a b :: bool frame. index a = index b \<longrightarrow> columns a = columns b \<longrightarrow>
            index (frame_or a b) = index a \<and> columns (frame_or a b) = columns a
          \<and> (\<forall>k. (frame_at (frame_or a b) k = Some True \<longleftrightarrow>
                    frame_at a k = Some True \<or> frame_at b k = Some True)
                \<and> (frame_at (frame_or a b) k = Some False \<longleftrightarrow>
                    frame_at a k = Some False \<and> frame_at b k = Some False)
                \<and> (frame_at (frame_or a b) k = None \<longleftrightarrow>
                    frame_at a k = None \<and> frame_at b k = None))"
    using frame_or_same_labels by blast
qed

theorem combined_mask_or_witness:
  "record_filter ex_rows = Inr ex_filtered
   \<and> add_columns (dtypes_of ex_rows) 500 50 ex_filtered = Inr ex_binned
   \<and> selected_mode ex_cfg = View_SideBySide
   \<and> (\<exists>out. heatmaps ex_cfg ex_binned = Inr out
         \<and> length (masks out) = 2
         \<and> frame_at (masks out ! 0) (550, 1000) = Some False
         \<and> frame_at (masks out ! 1) (550, 1000) = Some True
         \<and> frame_at (count_mask out) (550, 1000) = Some True
         \<and> frame_at (masks out ! 0) (550, 500) = Some False
         \<and> frame_at (masks out ! 1) (550, 500) = Some False
         \<and> frame_at (count_mask out) (550, 500) = Some False)"
proof -
  let ?a = "snd (create_trim_heatmap ex_cfg (unstack (agged Col_STFT Mean ex_binned))
                   (unstack (agged Col_STFT Count ex_binned)))"
  let ?b = "snd (create_trim_heatmap ex_cfg (unstack (agged Col_LTFT Mean ex_binned))
                   (unstack (agged Col_STFT Count ex_binned)))"
  have md: "selected_mode ex_cfg = View_SideBySide" by (simp add: ex_cfg_def)
  from ex_heatmaps obtain out where out: "heatmaps ex_cfg ex_binned = Inr out" ..
  from combined_mask_or[OF ex_record_filter ex_add_columns md out]
  obtain ps pl cn where
    p: "pivot_table ex_binned Col_STFT Mean = Inr ps" "pivot_table ex_binned Col_LTFT Mean = Inr pl"
      "pivot_table ex_binned Col_STFT Count = Inr cn"
    and m: "masks out = [snd (create_trim_heatmap ex_cfg ps cn), snd (create_trim_heatmap ex_cfg pl cn)]"
    and t: "\<forall>k. frame_at (count_mask out) k = Some True \<longleftrightarrow>
                 frame_at (snd (create_trim_heatmap ex_cfg ps cn)) k = Some True
               \<or> frame_at (snd (create_trim_heatmap ex_cfg pl cn)) k = Some True"
    and f: "\<forall>k. frame_at (count_mask out) k = Some False \<longleftrightarrow>
                 frame_at (snd (create_trim_heatmap ex_cfg ps cn)) k = Some False
               \<and> frame_at (snd (create_trim_heatmap ex_cfg pl cn)) k = Some False"
    by blast
  from p have e: "ps = unstack (agged Col_STFT Mean ex_binned)"
    "pl = unstack (agged Col_LTFT Mean ex_binned)" "cn = unstack (agged Col_STFT Count ex_binned)"
    by (simp_all add: ex_pivot_table)
  have cfg: "min_samples ex_cfg = 1" "trim_range ex_cfg = (-1, 4)" by (simp_all add: ex_cfg_def)
  have fa: "frame_at ?a (550, 1000) = Some False" "frame_at ?a (550, 500) = Some False"
    by (simp_all add: frame_at_def ex_mask_axes ex_axes align_def)
       (simp_all add: snd_create_trim_heatmap frame_and_def frame_ge_def frame_le_def frame_at_def
          ex_axes align_def cfg unstack_def ex_agged)
  have fb: "frame_at ?b (550, 1000) = Some True" "frame_at ?b (550, 500) = Some False"
    by (simp_all add: frame_at_def ex_mask_axes ex_axes align_def)
       (simp_all add: snd_create_trim_heatmap frame_and_def frame_ge_def frame_le_def frame_at_def
          ex_axes align_def cfg unstack_def ex_agged)
  from m e have m0: "masks out ! 0 = ?a" and m1: "masks out ! 1 = ?b" and ln: "length (masks out) = 2"
    by simp_all
  from t e fb(1) have c1: "frame_at (count_mask out) (550, 1000) = Some True" by blast
  from f e fa(2) fb(2) have c2: "frame_at (count_mask out) (550, 500) = Some False" by blast
  from out ln m0 m1 fa fb c1 c2
  have "heatmaps ex_cfg ex_binned = Inr out
         \<and> length (masks out) = 2
         \<and> frame_at (masks out ! 0) (550, 1000) = Some False
         \<and> frame_at (masks out ! 1) (550, 1000) = Some True
         \<and> frame_at (count_mask out) (550, 1000) = Some True
         \<and> frame_at (masks out ! 0) (550, 500) = Some False
         \<and> frame_at (masks out ! 1) (550, 500) = Some False
         \<and> frame_at (count_mask out) (550, 500) = Some False"
    by simp
  with ex_record_filter ex_add_columns md show ?thesis by blast
qed

section \<open>The empty log\<close>




section \<open>The mapping file\<close>

text \<open>
  Claim C6. The resolver fails with \<open>MissingMappingColumnsError\<close> exactly when the mapping
  file has no column \<open>original\<close> or no column \<open>new\<close>. It fails with
  \<open>MissingRequiredFieldError\<close> exactly when both columns are there and some required field
  is not among the values of the dictionary, and the error carries exactly these fields,
  in the order of \<open>REQUIRED_COLUMNS\<close>. It fails in no other way. When it fails the whole
  computation ends with that error, so no grid, mask or series is produced.
\<close>

theorem resolve_errors:
  "(resolve df_map = Inl MissingMappingColumnsError \<longleftrightarrow>
      ''original'' \<notin> set (df_columns df_map) \<or> ''new'' \<notin> set (df_columns df_map))
   \<and> (resolve df_map = Inl (MissingRequiredFieldError ms) \<longleftrightarrow>
        ''original'' \<in> set (df_columns df_map) \<and> ''new'' \<in> set (df_columns df_map)
        \<and> ms \<noteq> []
        \<and> ms = filter (\<lambda>col. col \<notin> set (dict_values (column_mapping_of df_map))) REQUIRED_COLUMNS)
   \<and> ((\<exists>cm. resolve df_map = Inr cm) \<longleftrightarrow>
        ''original'' \<in> set (df_columns df_map) \<and> ''new'' \<in> set (df_columns df_map)
        \<and> set REQUIRED_COLUMNS \<subseteq> set (dict_values (column_mapping_of df_map)))
   \<and> resolve df_map \<noteq> Inl OtherError
   \<and> (\<forall>e. resolve df_map = Inl e \<longrightarrow> app cfg df_log df_map = Inl e)"
proof -
  have f: "filter (\<lambda>col. col \<notin> set vs) REQUIRED_COLUMNS = [] \<longleftrightarrow> set REQUIRED_COLUMNS \<subseteq> set vs" for vs
    by (auto simp: filter_empty_conv)
  show ?thesis
    by (auto simp: resolve_def missing_of_def Let_def app_def f)
qed

theorem resolve_errors_witness:
  "resolve ex_df_map_no_new = Inl MissingMappingColumnsError
   \<and> app ex_cfg ex_df_log ex_df_map_no_new = Inl MissingMappingColumnsError
   \<and> resolve ex_df_map_no_ltft = Inl (MissingRequiredFieldError [''LTFT''])
   \<and> app ex_cfg ex_df_log ex_df_map_no_ltft = Inl (MissingRequiredFieldError [''LTFT''])
   \<and> resolve ex_df_map = Inr ex_column_mapping"
proof -
  note t1 = resolve_errors[of ex_df_map_no_new "[]" ex_cfg ex_df_log]
  note t2 = resolve_errors[of ex_df_map_no_ltft "[''LTFT'']" ex_cfg ex_df_log]
  from t1 have a: "resolve ex_df_map_no_new = Inl MissingMappingColumnsError"
    by (simp add: ex_columns_no_new)
  with t1 have a': "app ex_cfg ex_df_log ex_df_map_no_new = Inl MissingMappingColumnsError"
    by blast
  from t2 have b: "resolve ex_df_map_no_ltft = Inl (MissingRequiredFieldError [''LTFT''])"
    by (simp add: ex_no_ltft)
  with t2 have b': "app ex_cfg ex_df_log ex_df_map_no_ltft = Inl (MissingRequiredFieldError [''LTFT''])"
    by blast
  from a a' b b' ex_resolve show ?thesis by blast
qed

text \<open>
  Claim C7, as the script has it. The claim says that of several source columns mapped to
  one required field the last one wins. The script keeps the last row only among rows
  with the same source column: the dictionary maps a source to the \<open>new\<close> of its last
  row. Two different sources mapped to one field are both renamed to it, so the renamed
  log has both columns under that label, with their cells unchanged.
\<close>

theorem mapping_last_row_per_source:
  "(\<forall>i. i < length ks \<longrightarrow> i < length vs \<longrightarrow>
        (\<forall>j. i < j \<longrightarrow> j < length ks \<longrightarrow> j < length vs \<longrightarrow> ks ! j \<noteq> ks ! i) \<longrightarrow>
        dict_get (dict_zip ks vs) (ks ! i) = Some (vs ! i))
   \<and> (\<forall>a b n xs ys. dict_get cm a = Some n \<longrightarrow> dict_get cm b = Some n \<longrightarrow>
        (a, xs) \<in> set df \<longrightarrow> (b, ys) \<in> set df \<longrightarrow>
        (n, xs) \<in> set (rename cm df) \<and> (n, ys) \<in> set (rename cm df))
   \<and> map snd (rename cm df) = map snd df
   \<and> df_columns (rename cm df) =
        map (\<lambda>c. case dict_get cm c of Some n \<Rightarrow> n | None \<Rightarrow> c) (df_columns df)"
proof (intro conjI allI impI)
  fix i assume i: "i < length ks" "i < length vs"
    and last: "\<forall>j. i < j \<longrightarrow> j < length ks \<longrightarrow> j < length vs \<longrightarrow> ks ! j \<noteq> ks ! i"
  let ?z = "zip ks vs"
  from i have iz: "i < length ?z" by simp
  have "\<forall>j. i < j \<longrightarrow> j < length ?z \<longrightarrow> fst (?z ! j) \<noteq> fst (?z ! i)"
    using last i by simp
  from map_of_rev_last[OF iz this] i show "dict_get (dict_zip ks vs) (ks ! i) = Some (vs ! i)"
    by (simp add: dict_get_dict_zip)
next
  fix a b n xs ys
  assume "dict_get cm a = Some n" "dict_get cm b = Some n" "(a, xs) \<in> set df" "(b, ys) \<in> set df"
  then show "(n, xs) \<in> set (rename cm df)" "(n, ys) \<in> set (rename cm df)"
    by (auto intro: rename_member)
next
  show "map snd (rename cm df) = map snd df"
    by (simp add: rename_def case_prod_beta comp_def)
next
  show "df_columns (rename cm df) =
        map (\<lambda>c. case dict_get cm c of Some n \<Rightarrow> n | None \<Rightarrow> c) (df_columns df)"
    by (simp add: rename_def df_columns_def case_prod_beta comp_def)
qed

theorem mapping_last_row_per_source_witness:
  "dict_get (dict_zip [''a'', ''b'', ''a''] [''X'', ''RPM'', ''RPM'']) ''a'' = Some ''RPM''
   \<and> dict_get (column_mapping_of ex_df_map_dup) ''Engine RPM'' = Some ''RPM''
   \<and> dict_get (column_mapping_of ex_df_map_dup) ''Wheel RPM'' = Some ''RPM''
   \<and> (''Engine RPM'', [Num 1000]) \<in> set ex_df_log_dup
   \<and> (''Wheel RPM'', [Num 2000]) \<in> set ex_df_log_dup
   \<and> (''RPM'', [Num 1000]) \<in> set (rename (column_mapping_of ex_df_map_dup) ex_df_log_dup)
   \<and> (''RPM'', [Num 2000]) \<in> set (rename (column_mapping_of ex_df_map_dup) ex_df_log_dup)
   \<and> map snd (rename (column_mapping_of ex_df_map_dup) ex_df_log_dup) = map snd ex_df_log_dup"
proof -
  note t = mapping_last_row_per_source[of "[''a'', ''b'', ''a'']" "[''X'', ''RPM'', ''RPM'']"
      "column_mapping_of ex_df_map_dup" ex_df_log_dup]
  from t have "2 < length [''a'', ''b'', ''a''] \<longrightarrow> 2 < length [''X'', ''RPM'', ''RPM''] \<longrightarrow>
        (\<forall>j. 2 < j \<longrightarrow> j < length [''a'', ''b'', ''a''] \<longrightarrow> j < length [''X'', ''RPM'', ''RPM''] \<longrightarrow>
           [''a'', ''b'', ''a''] ! j \<noteq> [''a'', ''b'', ''a''] ! 2) \<longrightarrow>
        dict_get (dict_zip [''a'', ''b'', ''a''] [''X'', ''RPM'', ''RPM'']) ([''a'', ''b'', ''a''] ! 2)
          = Some ([''X'', ''RPM'', ''RPM''] ! 2)"
    by blast
  then have a: "dict_get (dict_zip [''a'', ''b'', ''a''] [''X'', ''RPM'', ''RPM'']) ''a'' = Some ''RPM''"
    by simp
  have g: "dict_get (column_mapping_of ex_df_map_dup) ''Engine RPM'' = Some ''RPM''"
    "dict_get (column_mapping_of ex_df_map_dup) ''Wheel RPM'' = Some ''RPM''"
    by (simp_all add: ex_cm_dup dict_get_def)
  have m: "(''Engine RPM'', [Num 1000]) \<in> set ex_df_log_dup"
    "(''Wheel RPM'', [Num 2000]) \<in> set ex_df_log_dup"
    by (simp_all add: ex_df_log_dup_def)
  from t g m have r: "(''RPM'', [Num 1000]) \<in> set (rename (column_mapping_of ex_df_map_dup) ex_df_log_dup)"
    "(''RPM'', [Num 2000]) \<in> set (rename (column_mapping_of ex_df_map_dup) ex_df_log_dup)"
    by blast+
  from t have s: "map snd (rename (column_mapping_of ex_df_map_dup) ex_df_log_dup) = map snd ex_df_log_dup"
    by blast
  from a g m r s show ?thesis by blast
qed

text \<open>
  The claim C7 as stated fails on a log with two RPM columns both mapped to \<open>RPM\<close>: the
  renamed log has two columns labelled \<open>RPM\<close>, selecting \<open>RPM\<close> does not give the
  column of the last mapping row, and the computation does not end as it does with the
  last mapping row alone.
\<close>

theorem last_mapping_wins_counterexample:
  "resolve ex_df_map_dup = Inr (column_mapping_of ex_df_map_dup)
   \<and> resolve ex_df_map_last = Inr (column_mapping_of ex_df_map_last)
   \<and> df_columns (rename (column_mapping_of ex_df_map_dup) ex_df_log_dup) =
        [''RPM'', ''RPM'', ''MAP_mbar'', ''STFT'', ''LTFT'']
   \<and> df_columns (rename (column_mapping_of ex_df_map_last) ex_df_log_dup) =
        [''Engine RPM'', ''RPM'', ''MAP_mbar'', ''STFT'', ''LTFT'']
   \<and> getitem (rename (column_mapping_of ex_df_map_last) ex_df_log_dup) ''RPM'' = Inr [Num 2000]
   \<and> getitem (rename (column_mapping_of ex_df_map_dup) ex_df_log_dup) ''RPM'' \<noteq> Inr [Num 2000]
   \<and> app ex_cfg ex_df_log_dup ex_df_map_dup \<noteq> app ex_cfg ex_df_log_dup ex_df_map_last"
proof -
  have r: "resolve ex_df_map_dup = Inr (column_mapping_of ex_df_map_dup)"
    "resolve ex_df_map_last = Inr (column_mapping_of ex_df_map_last)"
    by (simp_all add: resolve_def Let_def missing_of_def ex_cm_dup dict_values_def REQUIRED_COLUMNS_def)
       (simp_all add: ex_df_map_dup_def ex_df_map_last_def df_columns_def)
  have c: "df_columns (rename (column_mapping_of ex_df_map_dup) ex_df_log_dup) =
        [''RPM'', ''RPM'', ''MAP_mbar'', ''STFT'', ''LTFT'']"
    "df_columns (rename (column_mapping_of ex_df_map_last) ex_df_log_dup) =
        [''Engine RPM'', ''RPM'', ''MAP_mbar'', ''STFT'', ''LTFT'']"
    by (simp_all add: ex_cm_dup rename_def ex_df_log_dup_def dict_get_def df_columns_def)
  have g: "getitem (rename (column_mapping_of ex_df_map_last) ex_df_log_dup) ''RPM'' = Inr [Num 2000]"
    "getitem (rename (column_mapping_of ex_df_map_dup) ex_df_log_dup) ''RPM'' = Inl OtherError"
    by (simp_all add: ex_cm_dup rename_def ex_df_log_dup_def dict_get_def getitem_def)
  have a1: "app ex_cfg ex_df_log_dup ex_df_map_dup = Inl OtherError"
    by (simp add: app_def r bin_records_def required_rows_def g)
       (simp add: ex_cm_dup rename_def ex_df_log_dup_def dict_get_def getitem_def)
  have rr: "required_rows (rename (column_mapping_of ex_df_map_last) ex_df_log_dup) =
      Inr [\<lparr>MAP_mbar = Num 500, RPM = Num 2000, STFT = Num 2, LTFT = Num 1\<rparr>]"
    by (simp add: ex_cm_dup rename_def ex_df_log_dup_def dict_get_def getitem_def required_rows_def make_rows_def)
  have "\<exists>df. bin_records ex_cfg ex_df_log_dup (column_mapping_of ex_df_map_last) = Inr df
           \<and> (\<forall>c r. r \<in> set df \<longrightarrow> \<not> is_Str (value_of c r))"
    apply (simp add: bin_records_def rr record_filter_def dropna_def boolean_index_def
        add_columns_def add_columns_row_def ex_cfg_def dtypes_of_def is_Str_def)
    apply (intro allI)
    subgoal for c by (cases c) (simp_all add: is_Str_def)
    done
  then obtain df where df: "bin_records ex_cfg ex_df_log_dup (column_mapping_of ex_df_map_last) = Inr df"
    "\<And>c r. r \<in> set df \<Longrightarrow> \<not> is_Str (value_of c r)" by blast
  then have "pivot_table df c agg = Inr (unstack (agged c agg df))" for c agg
    by (auto simp: pivot_table_def)
  then have "\<exists>out. heatmaps ex_cfg df = Inr out"
    by (simp add: heatmaps_def ex_cfg_def case_prod_beta Let_def)
  then have "\<exists>out. app ex_cfg ex_df_log_dup ex_df_map_last = Inr (Some out)"
    using df(1) by (auto simp: app_def r ex_cfg_def)
  with a1 have "app ex_cfg ex_df_log_dup ex_df_map_dup \<noteq> app ex_cfg ex_df_log_dup ex_df_map_last"
    by auto
  with r c g show ?thesis by simp
qed

section \<open>The filter\<close>

text \<open>
  Claim C4, as the script has it. When the filter returns, it returns the rows it keeps,
  in their order, a subsequence of its input and no longer than it: a row is kept when
  none of its four required cells is empty and its \<open>MAP_mbar\<close> and \<open>RPM\<close> are positive
  numbers. The filter fails exactly when a row with no empty required cell holds text
  in \<open>MAP_mbar\<close> or \<open>RPM\<close>; text in \<open>STFT\<close> or \<open>LTFT\<close> neither drops a row nor fails.
  On a row whose required cells are numbers or empty, a row is kept exactly when the
  specification does not drop it.
\<close>

theorem record_filter_subsequence:
  "(\<forall>out. record_filter rs = Inr out \<longrightarrow>
        out = filter kept rs \<and> subseq out rs \<and> length out \<le> length rs)
   \<and> ((\<exists>e. record_filter rs = Inl e) \<longleftrightarrow>
        (\<exists>r \<in> set rs. MAP_mbar r \<noteq> NaN \<and> RPM r \<noteq> NaN \<and> STFT r \<noteq> NaN \<and> LTFT r \<noteq> NaN
           \<and> (is_Str (MAP_mbar r) \<or> is_Str (RPM r))))
   \<and> (\<forall>r. (MAP_mbar r = NaN \<or> numeric (MAP_mbar r)) \<longrightarrow> (RPM r = NaN \<or> numeric (RPM r)) \<longrightarrow>
          (STFT r = NaN \<or> numeric (STFT r)) \<longrightarrow> (LTFT r = NaN \<or> numeric (LTFT r)) \<longrightarrow>
          (kept r \<longleftrightarrow> \<not> dropped_by_spec r))"
proof -
  have a: "\<forall>out. record_filter rs = Inr out \<longrightarrow>
        out = filter kept rs \<and> subseq out rs \<and> length out \<le> length rs"
    by (simp add: record_filter_eq split: if_splits)
  have b: "(\<exists>e. record_filter rs = Inl e) \<longleftrightarrow>
        (\<exists>r \<in> set rs. MAP_mbar r \<noteq> NaN \<and> RPM r \<noteq> NaN \<and> STFT r \<noteq> NaN \<and> LTFT r \<noteq> NaN
           \<and> (is_Str (MAP_mbar r) \<or> is_Str (RPM r)))"
    by (auto simp: record_filter_eq dropna_def)
  have c: "\<forall>r. (MAP_mbar r = NaN \<or> numeric (MAP_mbar r)) \<longrightarrow> (RPM r = NaN \<or> numeric (RPM r)) \<longrightarrow>
          (STFT r = NaN \<or> numeric (STFT r)) \<longrightarrow> (LTFT r = NaN \<or> numeric (LTFT r)) \<longrightarrow>
          (kept r \<longleftrightarrow> \<not> dropped_by_spec r)"
    using kept_iff_spec by blast
  from a b c show ?thesis by (intro conjI)
qed

theorem record_filter_subsequence_witness:
  "record_filter ex_rows = Inr ex_filtered
   \<and> ex_filtered = filter kept ex_rows \<and> subseq ex_filtered ex_rows
   \<and> length ex_filtered \<le> length ex_rows
   \<and> kept (ex_rows ! 0) \<and> \<not> dropped_by_spec (ex_rows ! 0)
   \<and> \<not> kept (ex_rows ! 2) \<and> dropped_by_spec (ex_rows ! 2)
   \<and> (\<exists>e. record_filter [ex_row_text_rpm] = Inl e)"
proof -
  note t = record_filter_subsequence[of ex_rows]
  from t ex_record_filter have a: "ex_filtered = filter kept ex_rows" "subseq ex_filtered ex_rows"
    "length ex_filtered \<le> length ex_rows" by blast+
  have n0: "MAP_mbar (ex_rows ! 0) = NaN \<or> numeric (MAP_mbar (ex_rows ! 0))"
    "RPM (ex_rows ! 0) = NaN \<or> numeric (RPM (ex_rows ! 0))"
    "STFT (ex_rows ! 0) = NaN \<or> numeric (STFT (ex_rows ! 0))"
    "LTFT (ex_rows ! 0) = NaN \<or> numeric (LTFT (ex_rows ! 0))"
    by (simp_all add: ex_rows_def numeric_def)
  have n2: "MAP_mbar (ex_rows ! 2) = NaN \<or> numeric (MAP_mbar (ex_rows ! 2))"
    "RPM (ex_rows ! 2) = NaN \<or> numeric (RPM (ex_rows ! 2))"
    "STFT (ex_rows ! 2) = NaN \<or> numeric (STFT (ex_rows ! 2))"
    "LTFT (ex_rows ! 2) = NaN \<or> numeric (LTFT (ex_rows ! 2))"
    by (simp_all add: ex_rows_def numeric_def)
  have k: "kept (ex_rows ! 0)" "\<not> kept (ex_rows ! 2)"
    by (simp_all add: ex_rows_def kept_def positive_def)
  from t n0 k(1) have d0: "\<not> dropped_by_spec (ex_rows ! 0)" by blast
  from t n2 k(2) have d2: "dropped_by_spec (ex_rows ! 2)" by blast
  have "ex_row_text_rpm \<in> set [ex_row_text_rpm]" "MAP_mbar ex_row_text_rpm \<noteq> NaN"
    "RPM ex_row_text_rpm \<noteq> NaN" "STFT ex_row_text_rpm \<noteq> NaN" "LTFT ex_row_text_rpm \<noteq> NaN"
    "is_Str (RPM ex_row_text_rpm)"
    by (simp_all add: ex_row_text_rpm_def is_Str_def)
  with record_filter_subsequence[of "[ex_row_text_rpm]"]
  have e: "\<exists>e. record_filter [ex_row_text_rpm] = Inl e" by blast
  from ex_record_filter a k d0 d2 e show ?thesis by blast
qed

text \<open>
  The claim C4 as stated fails on rows that hold text: a row whose \<open>STFT\<close> is text is
  kept though the specification drops it, and a row whose \<open>RPM\<close> is text makes the filter
  fail instead of being dropped in silence.
\<close>

theorem record_filter_counterexample:
  "dropped_by_spec ex_row_text_stft
   \<and> record_filter [ex_row_text_stft] = Inr [ex_row_text_stft]
   \<and> dropped_by_spec ex_row_text_rpm
   \<and> record_filter [ex_row_text_rpm] = Inl OtherError"
  by (simp add: dropped_by_spec_def ex_row_text_stft_def ex_row_text_rpm_def numeric_def positive_def
      record_filter_def dropna_def boolean_index_def)

end
